theory Spec2Isabelle
  imports Complex_Main "HOL-Library.Sublist" "HOL-Library.Char_ord" "HOL-Library.List_Lexorder" "HOL-Library.Product_Lexorder" "HOL-Library.Multiset"
begin

section \<open>Python strings\<close>

text \<open>
  A Python \<open>str\<close> is modelled as a \<open>string\<close> in which every \<open>char\<close> stands for one
  code point in the range U+0000 to U+00FF; code points above U+00FF are outside the model.
  Code points from 128 on are the non-ASCII ones. The character classes below are those of
  CPython for that range: \<open>str.isspace\<close> (also the meaning of \<open>\s\<close> in a \<open>str\<close> pattern),
  decimal digits (\<open>\d\<close>), word characters (\<open>\w\<close>: \<open>str.isalnum\<close> or underscore) and
  \<open>str.lower\<close>.
\<close>

definition code :: "char \<Rightarrow> nat" where
  "code c = of_char c"

definition is_ascii :: "char \<Rightarrow> bool" where
  "is_ascii c = (code c < 128)"

definition is_space :: "char \<Rightarrow> bool" where
  "is_space c = (let n = code c in
     (9 \<le> n \<and> n \<le> 13) \<or> (28 \<le> n \<and> n \<le> 32) \<or> n = 133 \<or> n = 160)"

definition is_digit :: "char \<Rightarrow> bool" where
  "is_digit c = (let n = code c in 48 \<le> n \<and> n \<le> 57)"

definition is_word :: "char \<Rightarrow> bool" where
  "is_word c = (let n = code c in
     (48 \<le> n \<and> n \<le> 57) \<or> (65 \<le> n \<and> n \<le> 90) \<or> n = 95 \<or> (97 \<le> n \<and> n \<le> 122) \<or>
     n = 170 \<or> n = 178 \<or> n = 179 \<or> n = 181 \<or> n = 185 \<or> n = 186 \<or>
     (188 \<le> n \<and> n \<le> 190) \<or> (192 \<le> n \<and> n \<le> 214) \<or> (216 \<le> n \<and> n \<le> 246) \<or>
     (248 \<le> n \<and> n \<le> 255))"

definition lower_char :: "char \<Rightarrow> char" where
  "lower_char c = (let n = code c in
     if (65 \<le> n \<and> n \<le> 90) \<or> (192 \<le> n \<and> n \<le> 222 \<and> n \<noteq> 215)
     then char_of (n + 32) else c)"

definition lower :: "string \<Rightarrow> string" where
  "lower s = map lower_char s"

definition strip :: "string \<Rightarrow> string" where
  "strip s = rev (dropWhile is_space (rev (dropWhile is_space s)))"

text \<open>\<open>sub in s\<close>: \<open>sub\<close> occurs in \<open>s\<close> as a contiguous substring.\<close>

fun py_in :: "string \<Rightarrow> string \<Rightarrow> bool" where
  "py_in sub [] = (sub = [])"
| "py_in sub (c # cs) = (prefix sub (c # cs) \<or> py_in sub cs)"

text \<open>
  \<open>s.replace(old, new)\<close>: every non-overlapping occurrence of \<open>old\<close>, found from the left,
  is replaced; with an empty \<open>old\<close>, \<open>new\<close> is inserted before every character and at the end.
\<close>

function replace :: "string \<Rightarrow> string \<Rightarrow> string \<Rightarrow> string" where
  "replace old new [] = (if old = [] then new else [])"
| "replace old new (c # cs) =
     (if old = [] then new @ c # replace old new cs
      else if prefix old (c # cs) then new @ replace old new (drop (length old) (c # cs))
      else c # replace old new cs)"
  by pat_completeness auto
termination
  by (relation "measure (\<lambda>(old, new, s). length s)") auto

section \<open>Text cleaning (process\_data.py)\<close>

text \<open>\<open>EMOJI_PATTERN.sub('', text)\<close> with the pattern \<open>[^\x00-\x7F]+\<close>.\<close>

definition remove_non_ascii :: "string \<Rightarrow> string" where
  "remove_non_ascii s = filter is_ascii s"

text \<open>\<open>CLEANUP_PATTERN.sub(' ', s)\<close> with the pattern \<open>\s+\<close>: every maximal run of
  whitespace becomes one space.\<close>

function collapse_ws :: "string \<Rightarrow> string" where
  "collapse_ws [] = []"
| "collapse_ws (c # cs) =
     (if is_space c then CHR '' '' # collapse_ws (dropWhile is_space cs)
      else c # collapse_ws cs)"
  by pat_completeness auto
termination
  by (relation "measure length") (auto simp: length_dropWhile_le less_Suc_eq_le)

text \<open>\<open>TYPO_CORRECTIONS\<close>, in the insertion order of the dictionary literal.\<close>

definition TYPO_CORRECTIONS :: "(string \<times> string) list" where
  "TYPO_CORRECTIONS =
    [(''griled chiken'', ''grilled chicken''),
     (''griled chicken'', ''grilled chicken''),
     (''griled chicken sandwhich'', ''grilled chicken sandwich''),
     (''sandwhich'', ''sandwich''),
     (''expresso'', ''espresso''),
     (''coffe'', ''coffee''),
     (''appitizers'', ''appetizers''),
     (''hashbrowns'', ''hash browns''),
     (''churos'', ''churros'')]"

text \<open>The loop \<open>for typo, correction in TYPO_CORRECTIONS.items()\<close>.\<close>

fun apply_typos :: "(string \<times> string) list \<Rightarrow> string \<Rightarrow> string" where
  "apply_typos [] cleaned = cleaned"
| "apply_typos ((typo, correction) # rest) cleaned =
     apply_typos rest (if py_in typo cleaned then replace typo correction cleaned else cleaned)"

text \<open>\<open>clean_text\<close> on a \<open>str\<close> argument (any other argument yields \<open>"unknown"\<close>).\<close>

definition clean_text :: "string \<Rightarrow> string" where
  "clean_text text =
     (if strip text = [] then ''unknown''
      else apply_typos TYPO_CORRECTIONS (lower (strip (collapse_ws (remove_non_ascii text)))))"

section \<open>Enumerations and entities (models.py)\<close>

datatype SourceSystem = TOAST | DOORDASH | SQUARE

datatype ProductCategory =
  BURGERS | SANDWICHES | SIDES | APPETIZERS | BEVERAGES | BREAKFAST
  | ENTREES | SALADS | DESSERTS | ALCOHOL | UNKNOWN

text \<open>The \<open>.value\<close> of a \<open>ProductCategory\<close> member.\<close>

fun category_value :: "ProductCategory \<Rightarrow> string" where
  "category_value BURGERS = ''burgers''"
| "category_value SANDWICHES = ''sandwiches''"
| "category_value SIDES = ''sides''"
| "category_value APPETIZERS = ''appetizers''"
| "category_value BEVERAGES = ''beverages''"
| "category_value BREAKFAST = ''breakfast''"
| "category_value ENTREES = ''entrees''"
| "category_value SALADS = ''salads''"
| "category_value DESSERTS = ''desserts''"
| "category_value ALCOHOL = ''alcohol''"
| "category_value UNKNOWN = ''unknown''"

text \<open>
  An \<open>OrderItem\<close>. The owning order is referred to by its \<open>order_id\<close>, the product by its
  key \<open>(canonical_name, category)\<close> once products are materialised.
\<close>

record OrderItem =
  item_order :: string
  item_product :: "(string \<times> ProductCategory) option"
  item_name :: string
  canonical_name :: string
  category :: ProductCategory
  quantity :: int
  unit_price_cents :: int
  total_price_cents :: int

section \<open>Location names (models.py)\<close>

definition LOCATION_MAPPING :: "(string \<times> string) list" where
  "LOCATION_MAPPING =
    [(''loc_downtown_001'', ''Downtown''),
     (''loc_airport_002'', ''Airport''),
     (''loc_mall_003'', ''Mall Location''),
     (''loc_univ_004'', ''University''),
     (''str_downtown_001'', ''Downtown''),
     (''str_airport_002'', ''Airport''),
     (''str_mall_003'', ''Mall Location''),
     (''str_university_004'', ''University''),
     (''LCN001DOWNTOWN'', ''Downtown''),
     (''LCN002AIRPORT'', ''Airport''),
     (''LCN003MALL'', ''Mall Location''),
     (''LCN004UNIV'', ''University'')]"

definition get_location_name :: "string \<Rightarrow> string \<Rightarrow> string" where
  "get_location_name location_id source =
     (case map_of LOCATION_MAPPING location_id of
        Some name \<Rightarrow> name
      | None \<Rightarrow>
         (let location_lower = lower location_id in
          if py_in ''downtown'' location_lower then ''Downtown''
          else if py_in ''airport'' location_lower then ''Airport''
          else if py_in ''mall'' location_lower then ''Mall Location''
          else if py_in ''univ'' location_lower \<or> py_in ''university'' location_lower
          then ''University''
          else ''Downtown''))"

section \<open>Category conflicts (process\_data.py)\<close>

text \<open>
  \<open>resolve_category_conflicts\<close> walks \<open>registry.order_items\<close> and touches nothing else of
  the registry, so it is modelled on the item list. Assigning the enum member
  \<open>ProductCategory.BURGERS\<close> cannot raise, so the \<open>except ValueError\<close> branch is dead.
\<close>

definition resolve_category_conflicts_item :: "OrderItem \<Rightarrow> OrderItem" where
  "resolve_category_conflicts_item item =
     (let canonical_name_lower = lower (canonical_name item);
          category_val = category_value (category item)
      in if py_in ''burger'' canonical_name_lower \<and> category_val \<noteq> ''burgers''
         then item\<lparr>category := BURGERS\<rparr> else item)"

definition resolve_category_conflicts :: "OrderItem list \<Rightarrow> OrderItem list" where
  "resolve_category_conflicts items = map resolve_category_conflicts_item items"


text \<open>An order item with the given canonical name and category, for worked examples.\<close>

definition example_item :: "string \<Rightarrow> ProductCategory \<Rightarrow> OrderItem" where
  "example_item name cat =
     \<lparr>item_order = ''TOAST_c1'', item_product = None, item_name = name, canonical_name = name,
      category = cat, quantity = 1, unit_price_cents = 0, total_price_cents = 0\<rparr>"

section \<open>Category mapping (models.py)\<close>

text \<open>
  A Python \<open>dict\<close> whose iteration order matters is an association list in insertion order
  with distinct keys; \<open>map_of\<close> is the lookup. \<open>CATEGORY_MAP\<close> is given in the order of its
  literal, and \<open>BASE_CATEGORY_MAP\<close> is a copy of it.
\<close>

definition CATEGORY_MAP :: "(string \<times> string) list" where
  "CATEGORY_MAP =
    [(''burgers'', category_value BURGERS),
     (''burger'', category_value BURGERS),
     (''sandwiches'', category_value SANDWICHES),
     (''sandwich'', category_value SANDWICHES),
     (''sides'', category_value SIDES),
     (''side'', category_value SIDES),
     (''sides & appetizers'', category_value SIDES),
     (''appetizers'', category_value APPETIZERS),
     (''appetizer'', category_value APPETIZERS),
     (''appitizers'', category_value APPETIZERS),
     (''beverages'', category_value BEVERAGES),
     (''beverage'', category_value BEVERAGES),
     (''drinks'', category_value BEVERAGES),
     (''drink'', category_value BEVERAGES),
     (''coffee'', category_value BEVERAGES),
     (''breakfast'', category_value BREAKFAST),
     (''entrees'', category_value ENTREES),
     (''entree'', category_value ENTREES),
     (''pasta'', category_value ENTREES),
     (''seafood'', category_value ENTREES),
     (''salads'', category_value SALADS),
     (''salad'', category_value SALADS),
     (''desserts'', category_value DESSERTS),
     (''dessert'', category_value DESSERTS),
     (''alcohol'', category_value ALCOHOL),
     (''beer'', category_value ALCOHOL),
     (''beer & wine'', category_value ALCOHOL),
     (''wine'', category_value ALCOHOL),
     (''cocktails'', category_value ALCOHOL),
     (''wraps'', category_value SANDWICHES)]"

definition BASE_CATEGORY_MAP :: "(string \<times> string) list" where
  "BASE_CATEGORY_MAP = CATEGORY_MAP"

text \<open>\<open>key in d\<close> and \<open>d[key] = value\<close> for a key that \<open>d\<close> does not hold yet.\<close>

definition dict_has :: "('k \<times> 'v) list \<Rightarrow> 'k \<Rightarrow> bool" where
  "dict_has d key = (map_of d key \<noteq> None)"

definition dict_add :: "('k \<times> 'v) list \<Rightarrow> 'k \<Rightarrow> 'v \<Rightarrow> ('k \<times> 'v) list" where
  "dict_add d key v = d @ [(key, v)]"

text \<open>The loop over \<open>BASE_CATEGORY_MAP.items()\<close>: the first base key that contains the
  category or is contained in it decides; \<open>None\<close> is \<open>matched = False\<close>.\<close>

fun partial_match :: "(string \<times> string) list \<Rightarrow> string \<Rightarrow> string option" where
  "partial_match [] cat = None"
| "partial_match ((base_key, base_value) # rest) cat =
     (if py_in base_key cat then Some base_value
      else if py_in cat base_key then Some base_value
      else partial_match rest cat)"

text \<open>\<open>any(keyword in category_lower for keyword in keywords)\<close>.\<close>

definition any_keyword :: "string list \<Rightarrow> string \<Rightarrow> bool" where
  "any_keyword keywords category_lower = list_ex (\<lambda>keyword. py_in keyword category_lower) keywords"

definition keyword_match :: "string \<Rightarrow> string option" where
  "keyword_match cat =
     (let category_lower = lower cat in
      if any_keyword [''steak'', ''meat'', ''entree'', ''entres'', ''chicken'', ''beef'', ''pork'', ''lamb'']
           category_lower
      then Some (category_value ENTREES)
      else if any_keyword [''drink'', ''beverage'', ''coffee'', ''juice'', ''soda''] category_lower
      then Some (category_value BEVERAGES)
      else if any_keyword [''beer'', ''wine'', ''cocktail'', ''alcohol'', ''spirit''] category_lower
      then Some (category_value ALCOHOL)
      else if any_keyword [''side'', ''appetizer'', ''appitizer''] category_lower
      then (if py_in ''appetizer'' category_lower \<or> py_in ''appitizer'' category_lower
            then Some (category_value APPETIZERS)
            else Some (category_value SIDES))
      else None)"

text \<open>The body of the loop over \<open>all_categories\<close>, for one category.\<close>

definition map_one_category :: "(string \<times> string) list \<Rightarrow> string \<Rightarrow> (string \<times> string) list" where
  "map_one_category mapping cat =
     (if dict_has mapping cat then mapping
      else case map_of BASE_CATEGORY_MAP cat of
        Some v \<Rightarrow> dict_add mapping cat v
      | None \<Rightarrow>
         (case partial_match BASE_CATEGORY_MAP cat of
            Some base_value \<Rightarrow> dict_add mapping cat base_value
          | None \<Rightarrow>
             (case keyword_match cat of
                Some v \<Rightarrow> dict_add mapping cat v
              | None \<Rightarrow> mapping)))"




definition build_category_mapping_from_catalogs :: "string list \<Rightarrow> (string \<times> string) list" where
  "build_category_mapping_from_catalogs order = foldl map_one_category BASE_CATEGORY_MAP order"

section \<open>The model registry (models.py)\<close>

datatype error =
  KeyError | AttributeError | ValueError | TypeError | OverflowError | OSError | JSONDecodeError

text \<open>
  A \<open>Location\<close> as \<open>get_or_create_location\<close> builds it: the source ids are unset at
  construction. The generated \<open>id\<close> and the audit timestamps play no part and are left out.
  Country and time zone are strings, or \<open>None\<close> when a caller hands \<open>None\<close> over.
\<close>

record Location =
  loc_canonical_name :: string
  toast_id :: "string option"
  doordash_id :: "string option"
  square_id :: "string option"
  address_line_1 :: "string option"
  city :: "string option"
  state :: "string option"
  zip_code :: "string option"
  country :: "string option"
  timezone :: "string option"

record Product =
  product_canonical_name :: string
  product_category :: ProductCategory

text \<open>
  An \<open>Order\<close>. Its location is referred to by canonical name. The instant and the local
  calendar fields are computed by pandas and pytz, which are not modelled: the record keeps
  the source strings they are computed from. A field that the adapter fills with the result
  of a \<open>.get\<close> may hold \<open>None\<close>.
\<close>

record Order =
  order_id :: string
  source_system :: SourceSystem
  order_location :: string
  external_order_id :: "string option"
  timestamp_source :: "string option"
  business_date_source :: "string option"
  order_type :: string
  total_amount_cents :: int
  subtotal_amount_cents :: int
  tax_amount_cents :: int
  tip_amount_cents :: int
  net_revenue_cents :: int
  fee_amount_cents :: int
  payment_method :: "string option"
  card_brand :: "string option"
  status :: string

text \<open>\<open>location_metadata\<close> is a dictionary of dictionaries: canonical name, then field
  name, then a value that is a string or \<open>None\<close>.\<close>

record ModelRegistry =
  locations :: "string \<rightharpoonup> Location"
  products :: "(string \<times> ProductCategory) \<rightharpoonup> Product"
  orders :: "Order list"
  order_items :: "OrderItem list"
  location_metadata :: "string \<rightharpoonup> (string \<rightharpoonup> string option)"

definition new_registry :: ModelRegistry where
  "new_registry = \<lparr>locations = Map.empty, products = Map.empty, orders = [], order_items = [],
     location_metadata = Map.empty\<rparr>"

text \<open>
  A statement that mutates the registry and may raise is a function from the registry to
  an outcome and the registry it leaves behind: what was written before a raise stays written.
  \<open>run_all\<close> executes statements in sequence and stops at the first raise.
\<close>

type_synonym stmt = "ModelRegistry \<Rightarrow> (error + unit) \<times> ModelRegistry"

definition done_ok :: stmt where
  "done_ok reg = (Inr (), reg)"

fun run_all :: "stmt list \<Rightarrow> stmt" where
  "run_all [] reg = (Inr (), reg)"
| "run_all (s # ss) reg =
     (case s reg of
        (Inl e, reg') \<Rightarrow> (Inl e, reg')
      | (Inr _, reg') \<Rightarrow> run_all ss reg')"

text \<open>Truthiness of an optional string: \<open>None\<close> and the empty string are false.\<close>

definition truthy :: "string option \<Rightarrow> bool" where
  "truthy v = (case v of None \<Rightarrow> False | Some s \<Rightarrow> s \<noteq> [])"

text \<open>\<open>location.field = v\<close> on the location object registered under the name.\<close>

definition set_location :: "string \<Rightarrow> (Location \<Rightarrow> Location) \<Rightarrow> stmt" where
  "set_location name f reg =
     (Inr (), reg\<lparr>locations := (locations reg)(name := map_option f (locations reg name))\<rparr>)"

text \<open>\<open>self.location_metadata[canonical_name][field] = v\<close>; a missing outer key raises.\<close>

definition set_metadata :: "string \<Rightarrow> string \<Rightarrow> string option \<Rightarrow> stmt" where
  "set_metadata name field v reg =
     (case location_metadata reg name of
        None \<Rightarrow> (Inl KeyError, reg)
      | Some meta \<Rightarrow>
          (Inr (), reg\<lparr>location_metadata := (location_metadata reg)(name \<mapsto> meta(field \<mapsto> v))\<rparr>))"

text \<open>\<open>if cond(location): body\<close>, reading the location object registered under the name.\<close>

definition when_location :: "string \<Rightarrow> (Location \<Rightarrow> bool) \<Rightarrow> stmt list \<Rightarrow> stmt" where
  "when_location name cond body reg =
     (case locations reg name of
        None \<Rightarrow> (Inr (), reg)
      | Some location \<Rightarrow> if cond location then run_all body reg else (Inr (), reg))"

definition create_location_if_missing ::
  "string \<Rightarrow> string option \<Rightarrow> string option \<Rightarrow> string option \<Rightarrow> string option
   \<Rightarrow> string option \<Rightarrow> string option \<Rightarrow> stmt" where
  "create_location_if_missing name timezone_str address_line_1' city' state' zip_code' country' reg =
     (if locations reg name = None then
        (Inr (), reg\<lparr>
           locations := (locations reg)(name \<mapsto>
             \<lparr>loc_canonical_name = name, toast_id = None, doordash_id = None, square_id = None,
              address_line_1 = address_line_1', city = city', state = state',
              zip_code = zip_code', country = country', timezone = timezone_str\<rparr>),
           location_metadata := (location_metadata reg)(name \<mapsto>
             [''toast_id'' \<mapsto> None, ''doordash_id'' \<mapsto> None, ''square_id'' \<mapsto> None,
              ''timezone'' \<mapsto> timezone_str, ''address_line_1'' \<mapsto> address_line_1',
              ''city'' \<mapsto> city', ''state'' \<mapsto> state', ''zip_code'' \<mapsto> zip_code',
              ''country'' \<mapsto> country'])\<rparr>)
      else (Inr (), reg))"

definition update_source_id :: "string \<Rightarrow> SourceSystem \<Rightarrow> string \<Rightarrow> stmt" where
  "update_source_id name src source_id =
     (case src of
        TOAST \<Rightarrow> run_all [set_location name (\<lambda>l. l\<lparr>toast_id := Some source_id\<rparr>),
                           set_metadata name ''toast_id'' (Some source_id)]
      | DOORDASH \<Rightarrow> run_all [set_location name (\<lambda>l. l\<lparr>doordash_id := Some source_id\<rparr>),
                              set_metadata name ''doordash_id'' (Some source_id)]
      | SQUARE \<Rightarrow> run_all [set_location name (\<lambda>l. l\<lparr>square_id := Some source_id\<rparr>),
                            set_metadata name ''square_id'' (Some source_id)])"

text \<open>
  \<open>ModelRegistry.get_or_create_location\<close>. The returned object is the one registered
  under \<open>canonical_name\<close> in the registry that is left behind. The defaults of the
  signature (\<open>'America/New_York'\<close>, \<open>None\<close> for the address, \<open>'US'\<close>) are written by the
  callers that rely on them.
\<close>

definition get_or_create_location ::
  "string \<Rightarrow> SourceSystem \<Rightarrow> string \<Rightarrow> string option \<Rightarrow> string option \<Rightarrow> string option
   \<Rightarrow> string option \<Rightarrow> string option \<Rightarrow> string option \<Rightarrow> stmt" where
  "get_or_create_location name src source_id timezone_str address_line_1' city' state' zip_code' country' =
     run_all
      [create_location_if_missing name timezone_str address_line_1' city' state' zip_code' country',
       update_source_id name src source_id,
       when_location name (\<lambda>l. truthy address_line_1' \<and> \<not> truthy (address_line_1 l))
         [set_location name (\<lambda>l. l\<lparr>address_line_1 := address_line_1'\<rparr>),
          set_metadata name ''address_line_1'' address_line_1'],
       when_location name (\<lambda>l. truthy city' \<and> \<not> truthy (city l))
         [set_location name (\<lambda>l. l\<lparr>city := city'\<rparr>),
          set_metadata name ''city'' city'],
       when_location name (\<lambda>l. truthy state' \<and> \<not> truthy (state l))
         [set_location name (\<lambda>l. l\<lparr>state := state'\<rparr>),
          set_metadata name ''state'' state'],
       when_location name (\<lambda>l. truthy zip_code' \<and> \<not> truthy (zip_code l))
         [set_location name (\<lambda>l. l\<lparr>zip_code := zip_code'\<rparr>),
          set_metadata name ''zip_code'' zip_code'],
       when_location name
         (\<lambda>l. truthy timezone_str \<and> timezone l = Some ''America/New_York''
               \<and> timezone_str \<noteq> Some ''America/New_York'')
         [set_location name (\<lambda>l. l\<lparr>timezone := timezone_str\<rparr>),
          set_metadata name ''timezone'' timezone_str]]"

text \<open>
  Two registries after one writer (Toast) has registered "Downtown": one reporting the time
  zone America/New\_York, one reporting America/Chicago.
\<close>

definition new_york_registry :: ModelRegistry where
  "new_york_registry = snd (get_or_create_location ''Downtown'' TOAST ''loc_downtown_001''
     (Some ''America/New_York'') (Some ''123 Main St'') (Some ''New York'') (Some ''NY'')
     (Some ''10001'') (Some ''US'') new_registry)"

definition chicago_registry :: ModelRegistry where
  "chicago_registry = snd (get_or_create_location ''Downtown'' TOAST ''loc_downtown_001''
     (Some ''America/Chicago'') (Some ''123 Main St'') (Some ''Chicago'') (Some ''IL'') None
     (Some ''US'') new_registry)"

section \<open>Entity resolution (process\_data.py)\<close>

text \<open>
  The key of a group is \<open>(canonical_name, category value)\<close>; a row of \<open>product_counts\<close>
  is \<open>(canonical_name, category, count)\<close>.
\<close>

type_synonym group_key = "string \<times> string"
type_synonym group_row = "string \<times> string \<times> nat"

definition row_key :: "group_row \<Rightarrow> group_key" where
  "row_key r = (fst r, fst (snd r))"

definition row_count :: "group_row \<Rightarrow> nat" where
  "row_count r = snd (snd r)"

text \<open>The list \<open>product_data\<close>: one \<open>(canonical_name, category)\<close> entry per order item.\<close>

definition product_data :: "OrderItem list \<Rightarrow> group_key list" where
  "product_data items = map (\<lambda>item. (canonical_name item, category_value (category item))) items"

text \<open>
  \<open>df_items.groupby(['canonical_name', 'category']).size().reset_index(name='count')\<close>:
  pandas groups with \<open>sort=True\<close> by default, so there is one row per distinct key, the rows
  are in ascending order of the key (name first, then category, strings compared code point
  by code point), and the count is the number of entries with that key.
\<close>

definition groupby_size :: "group_key list \<Rightarrow> group_row list" where
  "groupby_size pd = map (\<lambda>k. (fst k, snd k, count_list pd k)) (sort (remdups pd))"

text \<open>
  \<open>product_counts.sort_values('count', ascending=False)\<close> is a library sort whose default
  algorithm (quicksort) does not promise any order among equal counts, so the sort is an
  argument \<open>sort_values\<close> of the model, of which only two things are ever assumed: it permutes
  the rows, and it returns them in descending order of the count.
\<close>

definition product_counts :: "(group_row list \<Rightarrow> group_row list) \<Rightarrow> OrderItem list \<Rightarrow> group_row list" where
  "product_counts sort_values items = sort_values (groupby_size (product_data items))"

text \<open>
  The state of the two loops is \<open>(canonical_map, processed)\<close>. \<open>ratio\<close> stands for
  \<open>fuzz.token_sort_ratio\<close>, a library function with values from 0 to 100.
\<close>

type_synonym resolution_state = "(group_key \<rightharpoonup> string) \<times> group_key set"

text \<open>The body of the inner loop, for the anchor \<open>(name, cat)\<close> and a row of \<open>same_category\<close>.\<close>

definition inner_step ::
  "(string \<Rightarrow> string \<Rightarrow> int) \<Rightarrow> string \<Rightarrow> string \<Rightarrow> resolution_state \<Rightarrow> group_row \<Rightarrow> resolution_state" where
  "inner_step ratio name cat st row2 =
     (let name2 = fst row2; key2 = (name2, cat) in
      if key2 \<in> snd st then st
      else let score = ratio name name2 in
        if score > 88 then ((fst st)(key2 \<mapsto> name), insert key2 (snd st)) else st)"

text \<open>The body of the outer loop, for one row of \<open>product_counts\<close>.\<close>

definition outer_step ::
  "(string \<Rightarrow> string \<Rightarrow> int) \<Rightarrow> group_row list \<Rightarrow> resolution_state \<Rightarrow> group_row \<Rightarrow> resolution_state" where
  "outer_step ratio rows st row =
     (let name = fst row; cat = fst (snd row); key = (name, cat) in
      if key \<in> snd st then st
      else let same_category = filter (\<lambda>r. fst (snd r) = cat) rows in
        foldl (inner_step ratio name cat) ((fst st)(key \<mapsto> name), insert key (snd st)) same_category)"

definition canonical_map_of :: "(string \<Rightarrow> string \<Rightarrow> int) \<Rightarrow> group_row list \<Rightarrow> group_key \<rightharpoonup> string" where
  "canonical_map_of ratio rows = fst (foldl (outer_step ratio rows) (Map.empty, {}) rows)"

text \<open>Applying the mapping to one order item: only \<open>canonical_name\<close> is updated.\<close>

definition apply_canonical_map :: "(group_key \<rightharpoonup> string) \<Rightarrow> OrderItem \<Rightarrow> OrderItem" where
  "apply_canonical_map canonical_map item =
     (let key = (canonical_name item, category_value (category item)) in
      case canonical_map key of
        Some new_name \<Rightarrow>
          if new_name \<noteq> canonical_name item then item\<lparr>canonical_name := new_name\<rparr> else item
      | None \<Rightarrow> item)"

text \<open>
  \<open>perform_entity_resolution_on_models\<close>, on the list \<open>registry.order_items\<close>, the only
  part of the registry it reads or writes. The sets \<open>original_names\<close> and \<open>final_names\<close>
  are only counted and take no part in the result.
\<close>

definition perform_entity_resolution_on_models ::
  "(string \<Rightarrow> string \<Rightarrow> int) \<Rightarrow> (group_row list \<Rightarrow> group_row list) \<Rightarrow> OrderItem list \<Rightarrow> OrderItem list" where
  "perform_entity_resolution_on_models ratio sort_values items =
     (if product_data items = [] then items
      else map (apply_canonical_map (canonical_map_of ratio (product_counts sort_values items))) items)"

text \<open>The order in which the groups are walked.\<close>

definition walk_order :: "(group_row list \<Rightarrow> group_row list) \<Rightarrow> OrderItem list \<Rightarrow> group_key list" where
  "walk_order sort_values items = map row_key (product_counts sort_values items)"

text \<open>
  The order the specification asks for: descending count, and among equal counts the
  order in which the groups first appear among the order items.
\<close>

definition first_seen :: "'a list \<Rightarrow> 'a list" where
  "first_seen xs = rev (remdups (rev xs))"

definition first_appearance_order :: "OrderItem list \<Rightarrow> group_key list" where
  "first_appearance_order items =
     sort_key (\<lambda>k. - int (count_list (product_data items) k)) (first_seen (product_data items))"

text \<open>
  What holds of \<open>(canonical_map, processed)\<close> throughout the two loops: the processed keys
  are the keys of the mapping; a key is mapped to its own name (an anchor) or to a name that
  scores above 88 against it; the name it is mapped to is an anchor of the same category;
  and both are keys of rows.
\<close>

definition resolution_inv ::
  "(string \<Rightarrow> string \<Rightarrow> int) \<Rightarrow> group_row list \<Rightarrow> resolution_state \<Rightarrow> bool" where
  "resolution_inv ratio rows st =
     (snd st = dom (fst st) \<and>
      (\<forall>n2 c n. fst st (n2, c) = Some n \<longrightarrow>
         (n = n2 \<or> 88 < ratio n n2) \<and> fst st (n, c) = Some n
         \<and> (n, c) \<in> row_key ` set rows \<and> (n2, c) \<in> row_key ` set rows))"

text \<open>A stand-in for the library's score, for worked examples.\<close>

definition example_ratio :: "string \<Rightarrow> string \<Rightarrow> int" where
  "example_ratio a b =
     (if a = b then 100
      else if (a = ''mozzarella sticks'' \<and> b = ''mozarella sticks'')
            \<or> (a = ''mozarella sticks'' \<and> b = ''mozzarella sticks'') then 97
      else 30)"

definition mozzarella_items :: "OrderItem list" where
  "mozzarella_items =
     [example_item ''mozzarella sticks'' APPETIZERS, example_item ''mozzarella sticks'' APPETIZERS,
      example_item ''mozarella sticks'' APPETIZERS, example_item ''mozarella sticks'' SIDES]"

definition fries_coleslaw_items :: "OrderItem list" where
  "fries_coleslaw_items = [example_item ''fries'' SIDES, example_item ''coleslaw'' SIDES]"

definition coleslaw_fries_items :: "OrderItem list" where
  "coleslaw_fries_items = [example_item ''coleslaw'' SIDES, example_item ''fries'' SIDES]"

text \<open>One sort with the two properties assumed of \<open>sort_values\<close>, to instantiate the
  argument in worked examples; the library's sort need not agree with it on equal counts.\<close>

definition example_sort_values :: "group_row list \<Rightarrow> group_row list" where
  "example_sort_values rows = sort_key (\<lambda>r. - int (row_count r)) rows"

section \<open>Money (process\_data.py)\<close>

text \<open>
  The values \<open>to_cents\<close> is given: \<open>None\<close>, an \<open>int\<close>, a \<open>float\<close> or a \<open>str\<close>. A
  \<open>float\<close> is an IEEE 754 double: a rational, an infinity or NaN (the sign of zero plays
  no part here). \<open>bool\<close> and other types are not modelled.
\<close>

datatype pyfloat = Finite rat | PosInf | NegInf | NaN

datatype pyval = PNone | PInt int | PFloat pyfloat | PStr string

text \<open>
  Rounding a rational to the nearest double, ties to the even significand: \<open>ilog2 q\<close> is
  the exponent \<open>e\<close> with \<open>2^e \<le> q < 2^(e+1)\<close>, the spacing of doubles around \<open>q\<close> is
  \<open>2^(e-52)\<close> (not below \<open>2^(-1074)\<close>), and a result of magnitude \<open>2^1024\<close> or more is
  an infinity.
\<close>

function bit_length :: "int \<Rightarrow> int" where
  "bit_length n = (if n \<le> 0 then 0 else 1 + bit_length (n div 2))"
  by pat_completeness auto
termination
  by (relation "measure nat") auto

declare bit_length.simps [simp del]

definition pow2 :: "int \<Rightarrow> rat" where
  "pow2 e = (if 0 \<le> e then 2 ^ nat e else 1 / 2 ^ nat (- e))"

definition ilog2 :: "rat \<Rightarrow> int" where
  "ilog2 q =
     (let (a, b) = quotient_of q;
          d = bit_length a - bit_length b
      in if pow2 d \<le> q then d else d - 1)"

definition round_half_even :: "rat \<Rightarrow> int" where
  "round_half_even q =
     (let f = \<lfloor>q\<rfloor>; d = q - of_int f in
      if d < 1 / 2 then f
      else if 1 / 2 < d then f + 1
      else if even f then f else f + 1)"

definition to_double :: "rat \<Rightarrow> pyfloat" where
  "to_double q =
     (if q = 0 then Finite 0
      else let e = max (ilog2 \<bar>q\<bar>) (- 1022);
               u = pow2 (e - 52);
               r = of_int (round_half_even (q / u)) * u
           in if pow2 1024 \<le> r then PosInf
              else if r \<le> - pow2 1024 then NegInf
              else Finite r)"

text \<open>\<open>value * 100\<close> on a float.\<close>

definition fmul100 :: "pyfloat \<Rightarrow> pyfloat" where
  "fmul100 x = (case x of Finite q \<Rightarrow> to_double (q * 100) | other \<Rightarrow> other)"

text \<open>\<open>int(round(x))\<close> on a float: Python 3 rounds to the nearest integer, a tie to the
  even one; an infinity raises \<open>OverflowError\<close> and NaN raises \<open>ValueError\<close>.\<close>

definition int_round :: "pyfloat \<Rightarrow> error + int" where
  "int_round x =
     (case x of
        Finite q \<Rightarrow> Inr (round_half_even q)
      | NaN \<Rightarrow> Inl ValueError
      | _ \<Rightarrow> Inl OverflowError)"

text \<open>The value of a string of decimal digits.\<close>

definition digits_value :: "string \<Rightarrow> int" where
  "digits_value ds = foldl (\<lambda>acc c. 10 * acc + (int (code c) - 48)) 0 ds"

text \<open>
  \<open>int(s)\<close> and \<open>float(s)\<close> on a string of digits, dots and minus signs (all that is left
  after the substitution): an optional leading minus, then digits, for \<open>float\<close> with at most
  one dot and at least one digit. \<open>None\<close> stands for \<open>ValueError\<close>. The limit of CPython
  3.11 on the number of digits \<open>int\<close> accepts is not modelled.
\<close>

definition split_sign :: "string \<Rightarrow> bool \<times> string" where
  "split_sign s = (case s of c # r \<Rightarrow> if c = CHR ''-'' then (True, r) else (False, s) | [] \<Rightarrow> (False, s))"

definition py_int :: "string \<Rightarrow> int option" where
  "py_int s =
     (let (neg, body) = split_sign s in
      if body \<noteq> [] \<and> list_all is_digit body
      then Some (if neg then - digits_value body else digits_value body)
      else None)"

definition py_float :: "string \<Rightarrow> pyfloat option" where
  "py_float s =
     (let (neg, body) = split_sign s;
          ip = takeWhile is_digit body;
          rest = dropWhile is_digit body;
          fp = (case rest of [] \<Rightarrow> [] | c # r \<Rightarrow> r);
          dotted = (case rest of [] \<Rightarrow> True | c # r \<Rightarrow> c = CHR ''.'')
      in if dotted \<and> list_all is_digit fp \<and> (ip \<noteq> [] \<or> fp \<noteq> [])
         then let m = of_int (digits_value (ip @ fp)) / 10 ^ length fp
              in Some (to_double (if neg then - m else m))
         else None)"

text \<open>\<open>re.sub(r'[^\d.-]', '', value)\<close>.\<close>

definition keep_money_chars :: "string \<Rightarrow> string" where
  "keep_money_chars s = filter (\<lambda>c. is_digit c \<or> c = CHR ''.'' \<or> c = CHR ''-'') s"

text \<open>
  \<open>to_cents\<close>. The float branch is outside any \<open>try\<close>; in the string branch only
  \<open>ValueError\<close> and \<open>TypeError\<close> are caught. The final fallback of the source is for
  types that are not modelled.
\<close>

definition to_cents :: "pyval \<Rightarrow> error + int" where
  "to_cents v =
     (case v of
        PNone \<Rightarrow> Inr 0
      | PFloat NaN \<Rightarrow> Inr 0
      | PInt i \<Rightarrow> Inr i
      | PFloat x \<Rightarrow> int_round (fmul100 x)
      | PStr s \<Rightarrow>
          (let clean_val = keep_money_chars s in
           if clean_val = [] then Inr 0
           else if CHR ''.'' \<in> set clean_val then
             (case py_float clean_val of
                None \<Rightarrow> Inr 0
              | Some x \<Rightarrow>
                  (case int_round (fmul100 x) of
                     Inl ValueError \<Rightarrow> Inr 0
                   | Inl TypeError \<Rightarrow> Inr 0
                   | r \<Rightarrow> r))
           else (case py_int clean_val of None \<Rightarrow> Inr 0 | Some n \<Rightarrow> Inr n)))"

text \<open>Rounding half away from zero, as the specification words it.\<close>

definition round_half_away :: "rat \<Rightarrow> int" where
  "round_half_away q = (if 0 \<le> q then \<lfloor>q + 1 / 2\<rfloor> else - \<lfloor>- q + 1 / 2\<rfloor>)"

section \<open>Quantity baked into a name (process\_data.py)\<close>

text \<open>
  \<open>QTY_PATTERN\<close> is \<open>(.*?)(\d+)\s*(?:pc|pcs|piece|pieces|ct|count|pack)\b\<close>, matched
  ignoring case with \<open>search\<close>. The matcher below follows the regular expression engine:
  the start of the match moves from left to right; from a start, the lazy group grows one
  character at a time over anything but a line feed; at each end of the group the rest of the
  pattern is tried: a maximal run of digits, a maximal run of whitespace, one of the unit
  words, and a word boundary.
\<close>

definition UNIT_WORDS :: "string list" where
  "UNIT_WORDS = [''pc'', ''pcs'', ''piece'', ''pieces'', ''ct'', ''count'', ''pack'']"

text \<open>\<open>\b\<close> after a unit word, whose last character is a word character: the end of the
  text, or a character that is not a word character.\<close>

definition word_boundary :: "string \<Rightarrow> bool" where
  "word_boundary post = (case post of [] \<Rightarrow> True | c # _ \<Rightarrow> \<not> is_word c)"

definition unit_at :: "string \<Rightarrow> bool" where
  "unit_at s =
     list_ex (\<lambda>u. length u \<le> length s \<and> lower (take (length u) s) = u
                  \<and> word_boundary (drop (length u) s)) UNIT_WORDS"

text \<open>\<open>(\d+)\s*(?:...)\b\<close> at the head of the text: the digits of group 2, if it matches.\<close>

definition match_tail :: "string \<Rightarrow> string option" where
  "match_tail s =
     (let d = takeWhile is_digit s; r = dropWhile is_space (dropWhile is_digit s)
      in if d \<noteq> [] \<and> unit_at r then Some d else None)"

text \<open>The whole pattern from a fixed start: groups 1 and 2 of the first match found.\<close>

fun match_from :: "string \<Rightarrow> (string \<times> string) option" where
  "match_from [] = (case match_tail [] of Some d \<Rightarrow> Some ([], d) | None \<Rightarrow> None)"
| "match_from (c # cs) =
     (case match_tail (c # cs) of
        Some d \<Rightarrow> Some ([], d)
      | None \<Rightarrow>
          if c = CHR 0x0A then None
          else (case match_from cs of Some (g, d) \<Rightarrow> Some (c # g, d) | None \<Rightarrow> None))"

text \<open>\<open>QTY_PATTERN.search\<close>.\<close>

fun search :: "string \<Rightarrow> (string \<times> string) option" where
  "search [] = match_from []"
| "search (c # cs) = (case match_from (c # cs) of Some r \<Rightarrow> Some r | None \<Rightarrow> search cs)"

text \<open>\<open>extract_baked_quantity\<close>; \<open>int(match.group(2))\<close> is the value of the digits.\<close>

definition extract_baked_quantity :: "string \<Rightarrow> int \<Rightarrow> string \<times> int" where
  "extract_baked_quantity raw_name original_qty =
     (case search raw_name of
        Some (name_part, baked) \<Rightarrow> (clean_text (strip name_part), original_qty * digits_value baked)
      | None \<Rightarrow> (clean_text raw_name, original_qty))"


section \<open>The Toast adapter (toast\_transformer.py)\<close>

text \<open>
  The parsed Toast export. Every field of a JSON object may be missing, \<open>null\<close>, or hold a
  value; a value has the type the export gives that field, and the elements of an array are
  objects. \<open>get\<close> is \<open>d.get(key)\<close> and \<open>get_or\<close> is \<open>d.get(key, default)\<close>: the default is
  returned for a missing key only, a \<open>null\<close> is returned as \<open>None\<close>.
\<close>

datatype 'a field = Missing | Null | Val 'a

definition get :: "'a field \<Rightarrow> 'a option" where
  "get f = (case f of Val v \<Rightarrow> Some v | _ \<Rightarrow> None)"

definition get_or :: "'a field \<Rightarrow> 'a \<Rightarrow> 'a option" where
  "get_or f d = (case f of Missing \<Rightarrow> Some d | Null \<Rightarrow> None | Val v \<Rightarrow> Some v)"

record ToastAddress =
  addr_line1 :: "string field"
  addr_city :: "string field"
  addr_state :: "string field"
  addr_zip :: "string field"
  addr_country :: "string field"

record ToastLocation =
  loc_guid :: "string field"
  loc_name :: "string field"
  loc_timezone :: "string field"
  loc_address :: "ToastAddress field"

record ToastItemGroup =
  group_name :: "string field"

record ToastItem =
  toast_item_name :: "string field"

text \<open>The flags \<open>voided\<close> are only tested for truth: missing and \<open>null\<close> are false.\<close>

record ToastSelection =
  sel_voided :: bool
  sel_displayName :: "string field"
  sel_item :: "ToastItem field"
  sel_quantity :: "int field"
  sel_itemGroup :: "ToastItemGroup field"
  sel_price :: "pyval field"

record ToastPayment =
  pay_type :: "string field"
  pay_cardType :: "string field"

record ToastCheck =
  chk_guid :: "string field"
  chk_payments :: "ToastPayment list field"
  chk_paidDate :: "string field"
  chk_closedDate :: "string field"
  chk_totalAmount :: "pyval field"
  chk_amount :: "pyval field"
  chk_taxAmount :: "pyval field"
  chk_tipAmount :: "pyval field"
  chk_voided :: bool
  chk_selections :: "ToastSelection list field"

record ToastDiningOption =
  behavior :: "string field"

record ToastOrder =
  ord_restaurantGuid :: "string field"
  ord_guid :: "string field"
  ord_openedDate :: "string field"
  ord_businessDate :: "string field"
  ord_diningOption :: "ToastDiningOption field"
  ord_checks :: "ToastCheck list field"

record ToastData =
  toast_locations :: "ToastLocation list field"
  toast_orders :: "ToastOrder list field"

text \<open>The empty object \<open>{}\<close> at each type where the adapter uses it as a default.\<close>

definition empty_address :: ToastAddress where
  "empty_address = \<lparr>addr_line1 = Missing, addr_city = Missing, addr_state = Missing,
     addr_zip = Missing, addr_country = Missing\<rparr>"

definition empty_item_group :: ToastItemGroup where
  "empty_item_group = \<lparr>group_name = Missing\<rparr>"

definition empty_item :: ToastItem where
  "empty_item = \<lparr>toast_item_name = Missing\<rparr>"

definition empty_payment :: ToastPayment where
  "empty_payment = \<lparr>pay_type = Missing, pay_cardType = Missing\<rparr>"

definition empty_dining_option :: ToastDiningOption where
  "empty_dining_option = \<lparr>behavior = Missing\<rparr>"

text \<open>\<open>a or b\<close> on optional strings; the value of an optional string where \<open>None\<close> and the
  empty string are treated alike.\<close>

definition py_or :: "string option \<Rightarrow> string option \<Rightarrow> string option" where
  "py_or a b = (if truthy a then a else b)"

definition str_or_empty :: "string option \<Rightarrow> string" where
  "str_or_empty v = (case v of None \<Rightarrow> [] | Some s \<Rightarrow> s)"

text \<open>Sequencing of computations that may raise.\<close>

definition bind_err :: "error + 'a \<Rightarrow> ('a \<Rightarrow> error + 'b) \<Rightarrow> error + 'b" where
  "bind_err r f = (case r of Inl e \<Rightarrow> Inl e | Inr x \<Rightarrow> f x)"

text \<open>\<open>for x in d.get(key, [])\<close>: iterating \<open>None\<close> raises \<open>TypeError\<close>.\<close>

definition iter_list :: "'a list field \<Rightarrow> error + 'a list" where
  "iter_list f = (case get_or f [] of None \<Rightarrow> Inl TypeError | Some xs \<Rightarrow> Inr xs)"

text \<open>A loop whose body yields a list, or raises: the lists are collected in order up to
  the first raise.\<close>

fun concat_err :: "('a \<Rightarrow> error + 'b list) \<Rightarrow> 'a list \<Rightarrow> error + 'b list" where
  "concat_err f [] = Inr []"
| "concat_err f (x # xs) =
     (case f x of
        Inl e \<Rightarrow> Inl e
      | Inr ys \<Rightarrow> (case concat_err f xs of Inl e \<Rightarrow> Inl e | Inr zs \<Rightarrow> Inr (ys @ zs)))"

text \<open>A loop over \<open>d.get(key, [])\<close> whose body is a statement on the registry.\<close>

definition stmt_for :: "'a list field \<Rightarrow> ('a \<Rightarrow> stmt) \<Rightarrow> stmt" where
  "stmt_for f body reg =
     (case iter_list f of Inl e \<Rightarrow> (Inl e, reg) | Inr xs \<Rightarrow> run_all (map body xs) reg)"

text \<open>
  \<open>extract_categories_from_toast_data\<close> with \<open>clean_text\<close>: the cleaned, non-empty item
  group names of all selections. A \<open>null\<close> array or a \<open>null\<close> item group raises.
\<close>

definition selection_categories :: "ToastSelection \<Rightarrow> error + string list" where
  "selection_categories selection =
     (case get_or (sel_itemGroup selection) empty_item_group of
        None \<Rightarrow> Inl AttributeError
      | Some item_group \<Rightarrow>
          (let group_name' = get_or (group_name item_group) [] in
           if truthy group_name'
           then (let cleaned = clean_text (str_or_empty group_name')
                 in if cleaned \<noteq> [] then Inr [cleaned] else Inr [])
           else Inr []))"

definition check_categories :: "ToastCheck \<Rightarrow> error + string list" where
  "check_categories check = bind_err (iter_list (chk_selections check)) (concat_err selection_categories)"

definition order_categories :: "ToastOrder \<Rightarrow> error + string list" where
  "order_categories order = bind_err (iter_list (ord_checks order)) (concat_err check_categories)"

definition extract_categories_from_toast_data :: "ToastData \<Rightarrow> error + string set" where
  "extract_categories_from_toast_data data =
     bind_err (bind_err (iter_list (toast_orders data)) (concat_err order_categories))
       (\<lambda>categories. Inr (set categories))"

text \<open>
  \<open>normalize_category\<close> with \<open>clean_text\<close>, reading the mapping that the adapter has just
  cached (a \<open>None\<close> or empty category is "unknown"), and the conversion of its result to the
  enumeration, \<open>UNKNOWN\<close> on \<open>ValueError\<close>.
\<close>

definition normalize_category :: "(string \<times> string) list \<Rightarrow> string \<Rightarrow> string" where
  "normalize_category category_map cat =
     (if cat = [] then category_value UNKNOWN
      else let cleaned = clean_text cat in
        case map_of category_map cleaned of
          Some v \<Rightarrow> v
        | None \<Rightarrow>
            (case find (\<lambda>(key, v). py_in key cleaned) category_map of
               Some (key, v) \<Rightarrow> v
             | None \<Rightarrow> category_value UNKNOWN))"

definition ProductCategory_of :: "string \<Rightarrow> ProductCategory" where
  "ProductCategory_of v =
     (case find (\<lambda>c. category_value c = v)
        [BURGERS, SANDWICHES, SIDES, APPETIZERS, BEVERAGES, BREAKFAST, ENTREES, SALADS,
         DESSERTS, ALCOHOL, UNKNOWN] of
        Some c \<Rightarrow> c
      | None \<Rightarrow> UNKNOWN)"

text \<open>\<open>map_toast_order_type\<close>: a dictionary lookup with a default, also for the key \<open>None\<close>.\<close>

definition map_toast_order_type :: "string option \<Rightarrow> string" where
  "map_toast_order_type dining_behavior =
     (case dining_behavior of
        None \<Rightarrow> ''DINE_IN''
      | Some b \<Rightarrow>
          (case map_of [(''DINE_IN'', ''DINE_IN''), (''TAKE_OUT'', ''TAKE_OUT''), (''DELIVERY'', ''DELIVERY'')] b of
             Some t \<Rightarrow> t
           | None \<Rightarrow> ''DINE_IN''))"

text \<open>\<open>format_order_id\<close>: the f-string writes \<open>None\<close> as "None".\<close>

definition format_order_id :: "SourceSystem \<Rightarrow> string option \<Rightarrow> string" where
  "format_order_id src external_id =
     (case src of TOAST \<Rightarrow> ''TOAST'' | DOORDASH \<Rightarrow> ''DD'' | SQUARE \<Rightarrow> ''SQ'') @ ''_''
     @ (case external_id of None \<Rightarrow> ''None'' | Some i \<Rightarrow> i)"

text \<open>\<open>get_location_name\<close> on a restaurant guid that may be \<open>None\<close>: the dictionary lookup
  misses and \<open>None.lower()\<close> raises \<open>AttributeError\<close>.\<close>

definition get_location_name_opt :: "string option \<Rightarrow> string \<Rightarrow> error + string" where
  "get_location_name_opt location_id source =
     (case location_id of None \<Rightarrow> Inl AttributeError | Some l \<Rightarrow> Inr (get_location_name l source))"

text \<open>\<open>to_cents(d.get(key, 0))\<close>.\<close>

definition to_cents_field :: "pyval field \<Rightarrow> error + int" where
  "to_cents_field f = to_cents (case get_or f (PInt 0) of None \<Rightarrow> PNone | Some v \<Rightarrow> v)"

text \<open>The first loop: every location with a guid and a name is entered in
  \<open>toast_location_map\<close> and registered; the fields of a \<open>null\<close> address cannot be read.\<close>

definition toast_location_map :: "ToastLocation list \<Rightarrow> string \<rightharpoonup> string" where
  "toast_location_map locations_data =
     foldl (\<lambda>m loc. if truthy (get (loc_guid loc)) \<and> truthy (get (loc_name loc))
                     then m(str_or_empty (get (loc_guid loc)) \<mapsto> str_or_empty (get (loc_name loc)))
                     else m)
       Map.empty locations_data"

definition register_toast_location :: "ToastLocation \<Rightarrow> stmt" where
  "register_toast_location loc reg =
     (let guid = get (loc_guid loc);
          name = get (loc_name loc);
          timezone_str = get_or (loc_timezone loc) ''America/New_York'';
          address = get_or (loc_address loc) empty_address
      in if truthy guid \<and> truthy name then
           (case address of
              None \<Rightarrow> (Inl AttributeError, reg)
            | Some a \<Rightarrow>
                get_or_create_location (str_or_empty name) TOAST (str_or_empty guid) timezone_str
                  (get (addr_line1 a)) (get (addr_city a)) (get (addr_state a)) (get (addr_zip a))
                  (get_or (addr_country a) ''US'') reg)
         else (Inr (), reg))"

text \<open>
  One selection that is not voided: the order item it becomes. A name that is \<open>None\<close>
  raises in the pattern search; a quantity that is \<open>None\<close> raises when it is multiplied
  (the pattern matches) or compared (it does not).
\<close>

definition selection_raw_name :: "ToastSelection \<Rightarrow> error + string option" where
  "selection_raw_name selection =
     (let display = get (sel_displayName selection) in
      if truthy display then Inr display
      else case get_or (sel_item selection) empty_item of
             None \<Rightarrow> Inl AttributeError
           | Some item \<Rightarrow> Inr (get_or (toast_item_name item) ''Unknown''))"

definition baked_quantity_opt :: "string option \<Rightarrow> int option \<Rightarrow> error + string \<times> int option" where
  "baked_quantity_opt raw_name qty =
     (case raw_name of
        None \<Rightarrow> Inl TypeError
      | Some raw \<Rightarrow>
          (case qty of
             Some q \<Rightarrow> Inr (fst (extract_baked_quantity raw q), Some (snd (extract_baked_quantity raw q)))
           | None \<Rightarrow> if search raw \<noteq> None then Inl TypeError else Inr (clean_text raw, None)))"

definition toast_order_item ::
  "(string \<times> string) list \<Rightarrow> string \<Rightarrow> ToastSelection \<Rightarrow> error + OrderItem" where
  "toast_order_item category_map order_id_str selection =
     bind_err (selection_raw_name selection) (\<lambda>raw_name.
     let qty = get_or (sel_quantity selection) 1 in
     bind_err (baked_quantity_opt raw_name qty) (\<lambda>(clean_name, adj_qty).
     case get_or (sel_itemGroup selection) empty_item_group of
       None \<Rightarrow> Inl AttributeError
     | Some item_group \<Rightarrow>
         (let category_str = normalize_category category_map
                (str_or_empty (get_or (group_name item_group) ''unknown''));
              category_enum = ProductCategory_of category_str
          in bind_err (to_cents_field (sel_price selection)) (\<lambda>total_line_price.
             case (adj_qty, qty) of
               (Some adj, Some q) \<Rightarrow>
                 (let unit_price =
                        (if adj > q
                         then (if adj > 0 then total_line_price div adj else 0)
                         else (if q > 0 then total_line_price div q else total_line_price))
                  in Inr \<lparr>item_order = order_id_str, item_product = None,
                          item_name = str_or_empty raw_name, canonical_name = clean_name,
                          category = category_enum, quantity = adj,
                          unit_price_cents = unit_price, total_price_cents = total_line_price\<rparr>)
             | _ \<Rightarrow> Inl TypeError))))"

definition append_order_item :: "(string \<times> string) list \<Rightarrow> string \<Rightarrow> ToastSelection \<Rightarrow> stmt" where
  "append_order_item category_map order_id_str selection reg =
     (if sel_voided selection then (Inr (), reg)
      else case toast_order_item category_map order_id_str selection of
             Inl e \<Rightarrow> (Inl e, reg)
           | Inr order_item \<Rightarrow> (Inr (), reg\<lparr>order_items := order_items reg @ [order_item]\<rparr>))"

text \<open>
  One check: the order it becomes. \<open>to_datetime_ok\<close> says whether \<open>pd.to_datetime\<close>
  accepts the business date of the source; when it does not, the call raises. The dining
  option is read next, then the amounts are converted, in the order of the arguments.
\<close>

definition toast_order ::
  "(string \<Rightarrow> bool) \<Rightarrow> string \<Rightarrow> ToastOrder \<Rightarrow> ToastCheck \<Rightarrow> error + Order" where
  "toast_order to_datetime_ok location_name order check =
     (let payment = (case get_or (chk_payments check) [] of
                       Some (p # _) \<Rightarrow> p
                     | _ \<Rightarrow> empty_payment);
          business_date = get (ord_businessDate order)
      in if truthy business_date \<and> \<not> to_datetime_ok (str_or_empty business_date)
         then Inl ValueError
         else case get_or (ord_diningOption order) empty_dining_option of
           None \<Rightarrow> Inl AttributeError
         | Some dining_option \<Rightarrow>
            bind_err (to_cents_field (chk_totalAmount check)) (\<lambda>total.
            bind_err (to_cents_field (chk_amount check)) (\<lambda>subtotal.
            bind_err (to_cents_field (chk_taxAmount check)) (\<lambda>tax.
            bind_err (to_cents_field (chk_tipAmount check)) (\<lambda>tip.
            bind_err (to_cents_field (chk_amount check)) (\<lambda>net.
              Inr \<lparr>order_id = format_order_id TOAST (get_or (chk_guid check) []),
                    source_system = TOAST,
                    order_location = location_name,
                    external_order_id = get_or (ord_guid order) [],
                    timestamp_source =
                      py_or (get (chk_paidDate check))
                        (py_or (get (chk_closedDate check)) (get (ord_openedDate order))),
                    business_date_source = business_date,
                    order_type = map_toast_order_type
                      (get_or (behavior dining_option) ''DINE_IN''),
                    total_amount_cents = total,
                    subtotal_amount_cents = subtotal,
                    tax_amount_cents = tax,
                    tip_amount_cents = tip,
                    net_revenue_cents = net,
                    fee_amount_cents = 0,
                    payment_method = get_or (pay_type payment) ''UNKNOWN'',
                    card_brand = get (pay_cardType payment),
                    status = (if \<not> chk_voided check then ''COMPLETED'' else ''VOIDED'')\<rparr>))))))"

definition process_check ::
  "(string \<Rightarrow> bool) \<Rightarrow> (string \<times> string) list \<Rightarrow> string \<Rightarrow> ToastOrder \<Rightarrow> ToastCheck \<Rightarrow> stmt" where
  "process_check to_datetime_ok category_map location_name order check reg =
     (case toast_order to_datetime_ok location_name order check of
        Inl e \<Rightarrow> (Inl e, reg)
      | Inr order_instance \<Rightarrow>
          stmt_for (chk_selections check) (append_order_item category_map (order_id order_instance))
            (reg\<lparr>orders := orders reg @ [order_instance]\<rparr>))"

text \<open>One order: its location is found or registered, then its checks are processed.\<close>

definition process_order ::
  "(string \<Rightarrow> bool) \<Rightarrow> (string \<times> string) list \<Rightarrow> (string \<rightharpoonup> string) \<Rightarrow> ToastOrder \<Rightarrow> stmt" where
  "process_order to_datetime_ok category_map location_map order reg =
     (let restaurant_guid = get (ord_restaurantGuid order);
          found = (case restaurant_guid of None \<Rightarrow> None | Some g \<Rightarrow> location_map g)
      in if \<not> truthy found then
           (case get_location_name_opt restaurant_guid ''Toast'' of
              Inl e \<Rightarrow> (Inl e, reg)
            | Inr location_name \<Rightarrow>
                run_all
                  [get_or_create_location location_name TOAST (str_or_empty restaurant_guid)
                     (Some ''America/New_York'') None None None None (Some ''US''),
                   stmt_for (ord_checks order)
                     (process_check to_datetime_ok category_map location_name order)]
                  reg)
         else
           (case locations reg (str_or_empty found) of
              None \<Rightarrow> (Inl KeyError, reg)
            | Some location \<Rightarrow>
                stmt_for (ord_checks order)
                  (process_check to_datetime_ok category_map (str_or_empty found) order) reg))"

text \<open>
  The body of the \<open>try\<close> in \<open>process_toast\<close>. Reading and parsing the file gives the data or
  raises; \<open>categories_order\<close> is the order in which the set of categories is iterated when
  the mapping is built. The mapping is cached in a module variable that every adapter
  overwrites before it reads it, so it is local to the body here.
\<close>

definition process_toast_body ::
  "(string \<Rightarrow> bool) \<Rightarrow> (string set \<Rightarrow> string list) \<Rightarrow> error + ToastData \<Rightarrow> stmt" where
  "process_toast_body to_datetime_ok categories_order file reg =
     (case file of
        Inl e \<Rightarrow> (Inl e, reg)
      | Inr data \<Rightarrow>
          (case extract_categories_from_toast_data data of
             Inl e \<Rightarrow> (Inl e, reg)
           | Inr toast_categories \<Rightarrow>
               (let comprehensive_mapping =
                      build_category_mapping_from_catalogs (categories_order toast_categories);
                    location_map = toast_location_map
                      (case get_or (toast_locations data) [] of None \<Rightarrow> [] | Some ls \<Rightarrow> ls)
                in run_all
                     [stmt_for (toast_locations data) register_toast_location,
                      stmt_for (toast_orders data)
                        (process_order to_datetime_ok comprehensive_mapping location_map)]
                     reg)))"

text \<open>\<open>try: body except Exception: report\<close>: the exception is reported and the function
  returns; the registry is left as the body left it.\<close>

definition catch_exception :: "stmt \<Rightarrow> stmt" where
  "catch_exception body reg = (Inr (), snd (body reg))"

definition process_toast ::
  "(string \<Rightarrow> bool) \<Rightarrow> (string set \<Rightarrow> string list) \<Rightarrow> error + ToastData \<Rightarrow> stmt" where
  "process_toast to_datetime_ok categories_order file =
     catch_exception (process_toast_body to_datetime_ok categories_order file)"

section \<open>The pipeline (process\_data.py)\<close>

text \<open>\<open>_create_products_from_order_items\<close>: the product map is cleared, then every item
  gets the product of its final name and category.\<close>

definition create_products_from_order_items :: stmt where
  "create_products_from_order_items reg =
     (Inr (), reg\<lparr>
        products := foldl (\<lambda>m item.
                      if m (canonical_name item, category item) = None
                      then m((canonical_name item, category item) \<mapsto>
                             \<lparr>product_canonical_name = canonical_name item,
                              product_category = category item\<rparr>)
                      else m) Map.empty (order_items reg),
        order_items := map (\<lambda>item. item\<lparr>item_product := Some (canonical_name item, category item)\<rparr>)
                         (order_items reg)\<rparr>)"

definition resolution_stage ::
  "(string \<Rightarrow> string \<Rightarrow> int) \<Rightarrow> (group_row list \<Rightarrow> group_row list) \<Rightarrow> ModelRegistry \<Rightarrow> ModelRegistry" where
  "resolution_stage ratio sort_values reg =
     reg\<lparr>order_items := perform_entity_resolution_on_models ratio sort_values (order_items reg)\<rparr>"

definition conflict_stage :: "ModelRegistry \<Rightarrow> ModelRegistry" where
  "conflict_stage reg = reg\<lparr>order_items := resolve_category_conflicts (order_items reg)\<rparr>"

text \<open>
  \<open>process_and_clean_data\<close> up to product materialisation (the exports that follow write
  files and are not modelled). \<open>process_doordash\<close> and \<open>process_square\<close> are built like
  \<open>process_toast\<close>: the whole body is inside \<open>try\<close> with \<open>except Exception\<close>. Their bodies
  are arguments of the model: any statements on the registry, which may raise.
\<close>

definition process_and_clean_data ::
  "(string \<Rightarrow> string \<Rightarrow> int) \<Rightarrow> (group_row list \<Rightarrow> group_row list) \<Rightarrow> (string \<Rightarrow> bool)
   \<Rightarrow> (string set \<Rightarrow> string list) \<Rightarrow> stmt \<Rightarrow> stmt \<Rightarrow> error + ToastData
   \<Rightarrow> (error + unit) \<times> ModelRegistry" where
  "process_and_clean_data ratio sort_values to_datetime_ok categories_order
       process_doordash_body process_square_body toast_file =
     run_all
       [process_toast to_datetime_ok categories_order toast_file,
        catch_exception process_doordash_body,
        catch_exception process_square_body,
        (\<lambda>reg. (Inr (), resolution_stage ratio sort_values reg)),
        (\<lambda>reg. (Inr (), conflict_stage reg)),
        create_products_from_order_items]
       new_registry"

text \<open>A statement that leaves the orders and order items alone, and one that only appends
  to them.\<close>

definition same_orders :: "stmt \<Rightarrow> bool" where
  "same_orders s = (\<forall>reg. orders (snd (s reg)) = orders reg
                        \<and> order_items (snd (s reg)) = order_items reg)"

definition appends_orders :: "stmt \<Rightarrow> bool" where
  "appends_orders s = (\<forall>reg. prefix (orders reg) (orders (snd (s reg)))
                           \<and> prefix (order_items reg) (order_items (snd (s reg))))"

text \<open>
  Toast exports with the location "Downtown". In the first, the first order, at that
  location, has one check with one selection, and the second order has no
  \<open>restaurantGuid\<close>. In the second, the only order has one check whose selection has a
  \<open>null\<close> display name and an item with a \<open>null\<close> name.
\<close>

definition churros_selection :: ToastSelection where
  "churros_selection =
     \<lparr>sel_voided = False, sel_displayName = Val ''Churros 12pcs'',
      sel_item = Val \<lparr>toast_item_name = Val ''Churros''\<rparr>,
      sel_quantity = Val 1, sel_itemGroup = Val \<lparr>group_name = Val ''Desserts''\<rparr>,
      sel_price = Val (PInt 899)\<rparr>"

definition first_check :: ToastCheck where
  "first_check =
     \<lparr>chk_guid = Val ''c1'',
      chk_payments = Val [\<lparr>pay_type = Val ''CREDIT'', pay_cardType = Val ''VISA''\<rparr>],
      chk_paidDate = Val ''2025-01-02T18:21:00Z'', chk_closedDate = Missing,
      chk_totalAmount = Val (PInt 971), chk_amount = Val (PInt 899),
      chk_taxAmount = Val (PInt 72), chk_tipAmount = Val (PInt 0), chk_voided = False,
      chk_selections = Val [churros_selection]\<rparr>"

definition downtown_location :: ToastLocation where
  "downtown_location =
     \<lparr>loc_guid = Val ''loc_downtown_001'', loc_name = Val ''Downtown'',
      loc_timezone = Val ''America/New_York'',
      loc_address = Val \<lparr>addr_line1 = Val ''123 Main St'', addr_city = Val ''New York'',
        addr_state = Val ''NY'', addr_zip = Val ''10001'', addr_country = Val ''US''\<rparr>\<rparr>"

definition first_order :: ToastOrder where
  "first_order =
     \<lparr>ord_restaurantGuid = Val ''loc_downtown_001'', ord_guid = Val ''o1'',
      ord_openedDate = Val ''2025-01-02T18:00:00Z'', ord_businessDate = Missing,
      ord_diningOption = Val \<lparr>behavior = Val ''DINE_IN''\<rparr>,
      ord_checks = Val [first_check]\<rparr>"

definition failing_toast_data :: ToastData where
  "failing_toast_data =
     \<lparr>toast_locations = Val [downtown_location],
      toast_orders = Val
        [first_order,
         first_order\<lparr>ord_restaurantGuid := Missing, ord_guid := Val ''o2'',
           ord_checks := Val [first_check\<lparr>chk_guid := Val ''c2''\<rparr>]\<rparr>]\<rparr>"

definition null_name_toast_data :: ToastData where
  "null_name_toast_data =
     \<lparr>toast_locations = Val [downtown_location],
      toast_orders = Val
        [first_order\<lparr>ord_checks := Val [first_check\<lparr>chk_guid := Null, chk_selections := Val
           [churros_selection\<lparr>sel_displayName := Null,
              sel_item := Val \<lparr>toast_item_name = Null\<rparr>\<rparr>]\<rparr>]\<rparr>]\<rparr>"

text \<open>An export whose only selection has a \<open>null\<close> item group.\<close>

definition null_group_toast_data :: ToastData where
  "null_group_toast_data =
     \<lparr>toast_locations = Val [downtown_location],
      toast_orders = Val
        [first_order\<lparr>ord_checks := Val [first_check\<lparr>chk_selections := Val
           [churros_selection\<lparr>sel_itemGroup := Null\<rparr>]\<rparr>]\<rparr>]\<rparr>"

text \<open>A business date check that accepts every date, and an adapter body that raises at once.\<close>

definition accept_any_date :: "string \<Rightarrow> bool" where
  "accept_any_date d = True"

definition raising_body :: stmt where
  "raising_body reg = (Inl OSError, reg)"

section \<open>Facts about the string primitives\<close>

lemma py_in_sublist: "py_in sub s = sublist sub s"
  by (induction s) (simp_all add: sublist_Cons_right)

lemma category_value_burgers: "category_value c = ''burgers'' \<longleftrightarrow> c = BURGERS"
  by (cases c) simp_all

section \<open>Facts about the category mapping\<close>



section \<open>Facts about the registry\<close>

lemma when_location_fill:
  assumes "locations reg name = Some L" and "location_metadata reg name = Some M"
  obtains reg' M' where
    "when_location name cond [set_location name f, set_metadata name fld v] reg = (Inr (), reg')"
    and "locations reg' = (locations reg)(name \<mapsto> (if cond L then f L else L))"
    and "location_metadata reg' name = Some M'"
proof (cases "cond L")
  case True
  show ?thesis
    by (rule that [of "reg\<lparr>locations := (locations reg)(name \<mapsto> f L),
          location_metadata := (location_metadata reg)(name \<mapsto> M(fld \<mapsto> v))\<rparr>" "M(fld \<mapsto> v)"])
      (use assms True in \<open>simp_all add: when_location_def set_location_def set_metadata_def\<close>)
next
  case False
  show ?thesis
    by (rule that [of reg M])
      (use assms False in \<open>auto simp: when_location_def\<close>)
qed

lemma update_source_id_existing:
  assumes "locations reg name = Some L" and "location_metadata reg name = Some M"
  obtains reg' L' M' where
    "update_source_id name src sid reg = (Inr (), reg')"
    and "locations reg' = (locations reg)(name \<mapsto> L')"
    and "location_metadata reg' name = Some M'"
    and "loc_canonical_name L' = loc_canonical_name L" and "country L' = country L"
    and "address_line_1 L' = address_line_1 L" and "city L' = city L" and "state L' = state L"
    and "zip_code L' = zip_code L" and "timezone L' = timezone L"
proof (cases src)
  case TOAST
  show ?thesis
    by (rule that [of "reg\<lparr>locations := (locations reg)(name \<mapsto> L\<lparr>toast_id := Some sid\<rparr>),
          location_metadata := (location_metadata reg)(name \<mapsto> M(''toast_id'' \<mapsto> Some sid))\<rparr>"
          "L\<lparr>toast_id := Some sid\<rparr>" "M(''toast_id'' \<mapsto> Some sid)"])
      (use assms TOAST in \<open>simp_all add: update_source_id_def set_location_def set_metadata_def\<close>)
next
  case DOORDASH
  show ?thesis
    by (rule that [of "reg\<lparr>locations := (locations reg)(name \<mapsto> L\<lparr>doordash_id := Some sid\<rparr>),
          location_metadata := (location_metadata reg)(name \<mapsto> M(''doordash_id'' \<mapsto> Some sid))\<rparr>"
          "L\<lparr>doordash_id := Some sid\<rparr>" "M(''doordash_id'' \<mapsto> Some sid)"])
      (use assms DOORDASH in \<open>simp_all add: update_source_id_def set_location_def set_metadata_def\<close>)
next
  case SQUARE
  show ?thesis
    by (rule that [of "reg\<lparr>locations := (locations reg)(name \<mapsto> L\<lparr>square_id := Some sid\<rparr>),
          location_metadata := (location_metadata reg)(name \<mapsto> M(''square_id'' \<mapsto> Some sid))\<rparr>"
          "L\<lparr>square_id := Some sid\<rparr>" "M(''square_id'' \<mapsto> Some sid)"])
      (use assms SQUARE in \<open>simp_all add: update_source_id_def set_location_def set_metadata_def\<close>)
qed

section \<open>Facts about grouping and sorting\<close>

lemma row_key_groupby_size: "map row_key (groupby_size pd) = sort (remdups pd)"
  by (simp add: groupby_size_def row_key_def comp_def)

lemma groupby_size_count:
  "r \<in> set (groupby_size pd) \<Longrightarrow> row_count r = count_list pd (row_key r)"
  by (auto simp: groupby_size_def row_count_def row_key_def)

lemma groupby_size_keys_ascending: "sorted_wrt (<) (map row_key (groupby_size pd))"
  by (simp add: row_key_groupby_size strict_sorted_iff)

lemma example_sort_values_mset: "mset (example_sort_values xs) = mset xs"
  by (simp add: example_sort_values_def)

lemma example_sort_values_descending:
  "sorted_wrt (\<lambda>r r'. row_count r' \<le> row_count r) (example_sort_values xs)"
proof -
  have "sorted (map (\<lambda>r. - int (row_count r)) (example_sort_values xs))"
    by (simp add: example_sort_values_def)
  then show ?thesis
    by (simp add: sorted_map sorted_wrt_iff_nth_less)
qed

lemma walk_order_ignores_item_order:
  assumes "mset items = mset items'"
  shows "walk_order sort_values items = walk_order sort_values items'"
proof -
  have "mset (product_data items) = mset (product_data items')"
    using assms unfolding product_data_def by (metis mset_map)
  then have s: "set (product_data items) = set (product_data items')"
    and c: "\<And>k. count_list (product_data items) k = count_list (product_data items') k"
    by (metis set_mset_mset, metis count_mset)
  have "sort (remdups (product_data items)) = sort (remdups (product_data items'))"
    using s by (metis sorted_list_of_set_sort_remdups)
  then have "groupby_size (product_data items) = groupby_size (product_data items')"
    by (simp add: groupby_size_def c)
  then show ?thesis by (simp add: walk_order_def product_counts_def)
qed

section \<open>Facts about the resolution loops\<close>

lemma inner_step_inv:
  assumes inv: "resolution_inv ratio rows st"
    and anchor: "fst st (name, cat) = Some name" "(name, cat) \<in> row_key ` set rows"
    and row2: "row2 \<in> set rows" "fst (snd row2) = cat"
  shows "resolution_inv ratio rows (inner_step ratio name cat st row2)
         \<and> fst (inner_step ratio name cat st row2) (name, cat) = Some name"
proof (cases "(fst row2, cat) \<in> snd st \<or> \<not> 88 < ratio name (fst row2)")
  case True
  then have "inner_step ratio name cat st row2 = st"
    by (auto simp: inner_step_def Let_def)
  then show ?thesis using inv anchor by simp
next
  case False
  let ?k2 = "(fst row2, cat)"
  let ?cm = "(fst st)(?k2 \<mapsto> name)"
  from False have new: "?k2 \<notin> snd st" and score: "88 < ratio name (fst row2)" by auto
  have step: "inner_step ratio name cat st row2 = (?cm, insert ?k2 (snd st))"
    using new score by (simp add: inner_step_def Let_def)
  from inv have dom: "snd st = dom (fst st)" by (simp add: resolution_inv_def)
  have fresh: "fst st ?k2 = None" using new dom by auto
  have k2: "?k2 \<in> row_key ` set rows"
    using row2 by (force simp: row_key_def)
  have old: "?cm k = fst st k" if "fst st k \<noteq> None" for k
    using that fresh by (cases "k = ?k2") auto
  have "resolution_inv ratio rows (?cm, insert ?k2 (snd st))"
    unfolding resolution_inv_def
  proof (intro conjI allI impI)
    show "snd (?cm, insert ?k2 (snd st)) = dom (fst (?cm, insert ?k2 (snd st)))"
      using dom by auto
  next
    fix n2 c n
    assume h: "fst (?cm, insert ?k2 (snd st)) (n2, c) = Some n"
    show "n = n2 \<or> 88 < ratio n n2"
    proof (cases "(n2, c) = ?k2")
      case True then show ?thesis using h score by auto
    next
      case False
      then have "fst st (n2, c) = Some n" using h by auto
      then show ?thesis using inv by (auto simp: resolution_inv_def)
    qed
    show "fst (?cm, insert ?k2 (snd st)) (n, c) = Some n"
    proof (cases "(n2, c) = ?k2")
      case True
      then have "n = name" "c = cat" using h by auto
      then show ?thesis using anchor(1) old by auto
    next
      case False
      then have "fst st (n2, c) = Some n" using h by auto
      then have "fst st (n, c) = Some n" using inv by (auto simp: resolution_inv_def)
      then show ?thesis using old [of "(n, c)"] by simp
    qed
    show "(n, c) \<in> row_key ` set rows"
    proof (cases "(n2, c) = ?k2")
      case True
      then have "n = name" "c = cat" using h by auto
      then show ?thesis using anchor(2) by simp
    next
      case False
      then have "fst st (n2, c) = Some n" using h by auto
      then show ?thesis using inv unfolding resolution_inv_def by blast
    qed
    show "(n2, c) \<in> row_key ` set rows"
    proof (cases "(n2, c) = ?k2")
      case True then show ?thesis using k2 by simp
    next
      case False
      then have "fst st (n2, c) = Some n" using h by auto
      then show ?thesis using inv unfolding resolution_inv_def by blast
    qed
  qed
  moreover have "?cm (name, cat) = Some name"
    using old [of "(name, cat)"] anchor(1) by simp
  ultimately show ?thesis by (simp add: step)
qed

lemma inner_loop_inv:
  assumes "resolution_inv ratio rows st"
    and "fst st (name, cat) = Some name" "(name, cat) \<in> row_key ` set rows"
    and "set same_category \<subseteq> set rows" "\<forall>r \<in> set same_category. fst (snd r) = cat"
  shows "resolution_inv ratio rows (foldl (inner_step ratio name cat) st same_category)"
  using assms
proof (induction same_category arbitrary: st)
  case Nil
  then show ?case by simp
next
  case (Cons r rs)
  from inner_step_inv [OF Cons.prems(1,2,3), of r] Cons.prems(4,5)
  have "resolution_inv ratio rows (inner_step ratio name cat st r)"
    and "fst (inner_step ratio name cat st r) (name, cat) = Some name"
    by auto
  then show ?case using Cons.IH Cons.prems(3,4,5) by simp
qed

lemma outer_step_inv:
  assumes inv: "resolution_inv ratio rows st" and row: "row \<in> set rows"
  shows "resolution_inv ratio rows (outer_step ratio rows st row)"
proof (cases "(fst row, fst (snd row)) \<in> snd st")
  case True
  then show ?thesis using inv by (simp add: outer_step_def Let_def)
next
  case False
  let ?name = "fst row" and ?cat = "fst (snd row)"
  let ?key = "(?name, ?cat)"
  let ?st1 = "((fst st)(?key \<mapsto> ?name), insert ?key (snd st))"
  from inv have dom: "snd st = dom (fst st)" by (simp add: resolution_inv_def)
  have fresh: "fst st ?key = None" using False dom by auto
  have key: "?key \<in> row_key ` set rows" using row by (force simp: row_key_def)
  have inv1: "resolution_inv ratio rows ?st1"
    unfolding resolution_inv_def
  proof (intro conjI allI impI)
    show "snd ?st1 = dom (fst ?st1)" using dom by auto
  next
    fix n2 c n
    assume h: "fst ?st1 (n2, c) = Some n"
    have old: "fst st (n2, c) = Some n" if "(n2, c) \<noteq> ?key" using that h by auto
    have anchor_old: "fst st (n, c) = Some n" "(n, c) \<in> row_key ` set rows"
      "(n2, c) \<in> row_key ` set rows" "n = n2 \<or> 88 < ratio n n2" if "(n2, c) \<noteq> ?key"
      using old [OF that] inv unfolding resolution_inv_def by blast+
    show "n = n2 \<or> 88 < ratio n n2"
      using h anchor_old(4) by (cases "(n2, c) = ?key") auto
    show "fst ?st1 (n, c) = Some n"
    proof (cases "(n2, c) = ?key")
      case True then show ?thesis using h by auto
    next
      case False
      then show ?thesis using anchor_old(1) fresh by (cases "(n, c) = ?key") auto
    qed
    show "(n, c) \<in> row_key ` set rows"
      using h key anchor_old(2) by (cases "(n2, c) = ?key") auto
    show "(n2, c) \<in> row_key ` set rows"
      using h key anchor_old(3) by (cases "(n2, c) = ?key") auto
  qed
  have "resolution_inv ratio rows
          (foldl (inner_step ratio ?name ?cat) ?st1 (filter (\<lambda>r. fst (snd r) = ?cat) rows))"
    by (rule inner_loop_inv [OF inv1 _ key]) auto
  then show ?thesis using False by (simp add: outer_step_def Let_def)
qed

lemma outer_loop_inv:
  assumes "resolution_inv ratio rows st" and "set rs \<subseteq> set rows"
  shows "resolution_inv ratio rows (foldl (outer_step ratio rows) st rs)"
  using assms
proof (induction rs arbitrary: st)
  case Nil
  then show ?case by simp
next
  case (Cons r rs)
  then show ?case by (simp add: outer_step_inv)
qed

lemma canonical_map_of_sound:
  assumes "canonical_map_of ratio rows (n2, c) = Some n"
  shows "(n = n2 \<or> 88 < ratio n n2) \<and> canonical_map_of ratio rows (n, c) = Some n
         \<and> (n, c) \<in> row_key ` set rows \<and> (n2, c) \<in> row_key ` set rows"
proof -
  have "resolution_inv ratio rows (Map.empty, {})"
    by (simp add: resolution_inv_def)
  then have "resolution_inv ratio rows (foldl (outer_step ratio rows) (Map.empty, {}) rows)"
    by (rule outer_loop_inv) simp
  then show ?thesis
    using assms unfolding resolution_inv_def canonical_map_of_def by blast
qed

lemma category_value_inj: "category_value a = category_value b \<Longrightarrow> a = b"
  by (cases a; cases b) simp_all

lemma product_counts_keys:
  assumes "\<And>xs. mset (sort_values xs) = mset xs"
  shows "row_key ` set (product_counts sort_values items) = set (product_data items)"
proof -
  have "set (product_counts sort_values items) = set (groupby_size (product_data items))"
    unfolding product_counts_def using assms by (metis set_mset_mset)
  then have "row_key ` set (product_counts sort_values items)
             = set (map row_key (groupby_size (product_data items)))"
    by simp
  then show ?thesis by (simp add: row_key_groupby_size)
qed

section \<open>Facts about doubles and rounding\<close>

lemma pow2_power_int: "pow2 e = power_int 2 e"
  by (simp add: pow2_def power_int_def field_simps)

lemma pow2_pos [simp]: "0 < pow2 e"
  by (simp add: pow2_power_int)

lemma pow2_nonzero [simp]: "pow2 e \<noteq> 0"
  using pow2_pos [of e] by linarith

lemma pow2_add: "pow2 (a + b) = pow2 a * pow2 b"
  by (simp add: pow2_power_int power_int_add)

lemma pow2_mono: "a \<le> b \<Longrightarrow> pow2 a \<le> pow2 b"
  by (simp add: pow2_power_int power_int_increasing)

lemma pow2_strict_mono: "a < b \<Longrightarrow> pow2 a < pow2 b"
  by (simp add: pow2_power_int power_int_strict_increasing)

lemma pow2_of_nat: "0 \<le> k \<Longrightarrow> pow2 k = of_int (2 ^ nat k)"
  by (simp add: pow2_def)

lemma bit_length_bounds:
  "0 < n \<Longrightarrow> 1 \<le> bit_length n \<and> 2 ^ nat (bit_length n - 1) \<le> n \<and> n < 2 ^ nat (bit_length n)"
proof (induction n rule: bit_length.induct)
  case (1 n)
  show ?case
  proof (cases "n div 2 = 0")
    case True
    with "1.prems" have n1: "n = 1" by presburger
    have "bit_length 1 = 1"
      by (subst bit_length.simps, subst bit_length.simps) simp
    with n1 show ?thesis by simp
  next
    case False
    with "1.prems" have pos: "0 < n div 2" by presburger
    from "1.IH" [OF _ pos] "1.prems"
    have k1: "1 \<le> bit_length (n div 2)"
      and lo: "2 ^ nat (bit_length (n div 2) - 1) \<le> n div 2"
      and hi: "n div 2 < 2 ^ nat (bit_length (n div 2))"
      by auto
    have bl: "bit_length n = 1 + bit_length (n div 2)"
      using "1.prems" by (subst bit_length.simps) simp
    have e0: "nat (bit_length (n div 2)) = Suc (nat (bit_length (n div 2) - 1))"
      using k1 by simp
    have e1: "nat (bit_length n - 1) = nat (bit_length (n div 2))"
      using k1 bl by simp
    have e2: "nat (bit_length n) = Suc (nat (bit_length (n div 2)))"
      using k1 bl by simp
    have "2 * 2 ^ nat (bit_length (n div 2) - 1) \<le> n" using lo by presburger
    then have a: "2 ^ nat (bit_length n - 1) \<le> n" by (simp add: e1 e0)
    have "n < 2 * 2 ^ nat (bit_length (n div 2))" using hi by presburger
    then have b: "n < 2 ^ nat (bit_length n)" by (simp add: e2)
    have "1 \<le> bit_length n" using k1 bl by simp
    with a b show ?thesis by blast
  qed
qed

lemma bit_length_pow2:
  assumes "0 < n"
  shows "pow2 (bit_length n - 1) \<le> of_int n" and "of_int n < pow2 (bit_length n)"
proof -
  from bit_length_bounds [OF assms]
  have k: "1 \<le> bit_length n" and lo: "2 ^ nat (bit_length n - 1) \<le> n"
    and hi: "n < 2 ^ nat (bit_length n)" by auto
  have "pow2 (bit_length n - 1) = of_int (2 ^ nat (bit_length n - 1))"
    using k by (simp add: pow2_of_nat)
  also have "\<dots> \<le> of_int n" using lo by (simp only: of_int_le_iff)
  finally show "pow2 (bit_length n - 1) \<le> of_int n" .
  have "(of_int n :: rat) < of_int (2 ^ nat (bit_length n))" using hi by (simp only: of_int_less_iff)
  also have "\<dots> = pow2 (bit_length n)" using k by (simp add: pow2_of_nat)
  finally show "of_int n < pow2 (bit_length n)" .
qed

lemma ilog2_bounds:
  assumes "0 < q"
  shows "pow2 (ilog2 q) \<le> q \<and> q < pow2 (ilog2 q + 1)"
proof -
  obtain a b where ab: "quotient_of q = (a, b)" by (cases "quotient_of q")
  then have b: "0 < b" and q: "q = of_int a / of_int b"
    by (simp_all add: quotient_of_denom_pos quotient_of_div)
  have a: "0 < a" using assms b q by (simp add: zero_less_divide_iff)
  let ?d = "bit_length a - bit_length b"
  note A = bit_length_pow2 [OF a] and B = bit_length_pow2 [OF b]
  have bq: "(0::rat) < of_int b" using b by simp
  have "q * of_int b = of_int a" using q bq by simp
  have up: "q < pow2 (?d + 1)"
  proof -
    have "of_int a < pow2 (bit_length a)" by (rule A(2))
    also have "\<dots> = pow2 (?d + 1) * pow2 (bit_length b - 1)"
      by (simp add: pow2_add [symmetric])
    also have "\<dots> \<le> pow2 (?d + 1) * of_int b"
      using B(1) by (simp add: mult_left_mono less_imp_le)
    finally show ?thesis using bq by (simp add: q pos_divide_less_eq)
  qed
  have low: "pow2 (?d - 1) \<le> q"
  proof -
    have "pow2 (?d - 1) * of_int b \<le> pow2 (?d - 1) * pow2 (bit_length b)"
      using B(2) by (simp add: mult_left_mono less_imp_le)
    also have "\<dots> = pow2 (bit_length a - 1)"
      by (simp add: pow2_add [symmetric])
    also have "\<dots> \<le> of_int a" by (rule A(1))
    finally show ?thesis using bq by (simp add: q pos_le_divide_eq)
  qed
  show ?thesis
  proof (cases "pow2 ?d \<le> q")
    case True
    then have "ilog2 q = ?d" by (simp add: ilog2_def ab)
    then show ?thesis using True up by simp
  next
    case False
    then have "ilog2 q = ?d - 1" by (simp add: ilog2_def ab)
    then show ?thesis using False low by simp
  qed
qed

lemma ilog2_unique:
  assumes "pow2 e \<le> q" and "q < pow2 (e + 1)"
  shows "ilog2 q = e"
proof -
  have "0 < q" using assms(1) pow2_pos [of e] by linarith
  from ilog2_bounds [OF this]
  have l: "pow2 (ilog2 q) \<le> q" and u: "q < pow2 (ilog2 q + 1)" by auto
  have "\<not> ilog2 q < e"
  proof
    assume "ilog2 q < e"
    then have "pow2 (ilog2 q + 1) \<le> pow2 e" by (intro pow2_mono) simp
    with u assms(1) show False by linarith
  qed
  moreover have "\<not> e < ilog2 q"
  proof
    assume "e < ilog2 q"
    then have "pow2 (e + 1) \<le> pow2 (ilog2 q)" by (intro pow2_mono) simp
    with l assms(2) show False by linarith
  qed
  ultimately show ?thesis by linarith
qed

lemma round_half_even_near:
  "\<bar>of_int (round_half_even q) - q\<bar> \<le> 1 / 2
   \<and> (\<bar>of_int (round_half_even q) - q\<bar> = 1 / 2 \<longrightarrow> even (round_half_even q))"
proof -
  define f where "f = \<lfloor>q\<rfloor>"
  define d where "d = q - of_int f"
  have d: "0 \<le> d" "d < 1" unfolding d_def f_def by linarith+
  have q: "q = of_int f + d" by (simp add: d_def)
  have r: "round_half_even q =
      (if d < 1 / 2 then f else if 1 / 2 < d then f + 1 else if even f then f else f + 1)"
    by (simp add: round_half_even_def Let_def f_def d_def)
  have lo: "of_int f - q = - d" and hi: "of_int (f + 1) - q = 1 - d"
    by (simp_all add: d_def)
  consider "d < 1 / 2" | "1 / 2 < d" | "d = 1 / 2" by linarith
  then show ?thesis
  proof cases
    case 1
    then have e: "round_half_even q = f" by (simp add: r)
    show ?thesis unfolding e lo using 1 d by simp
  next
    case 2
    then have e: "round_half_even q = f + 1" by (simp add: r)
    show ?thesis unfolding e hi using 2 d by simp
  next
    case 3
    show ?thesis
    proof (cases "even f")
      case True
      then have e: "round_half_even q = f" using 3 by (simp add: r)
      show ?thesis unfolding e lo using 3 True by simp
    next
      case False
      then have e: "round_half_even q = f + 1" using 3 by (simp add: r)
      show ?thesis unfolding e hi using 3 False by simp
    qed
  qed
qed

lemma round_half_even_eval:
  assumes "of_int k - 1 / 2 < q" and "q < of_int k + 1 / 2"
  shows "round_half_even q = k"
proof -
  from round_half_even_near [of q]
  have "\<bar>of_int (round_half_even q) - q\<bar> \<le> 1 / 2" by simp
  then have "\<bar>(of_int (round_half_even q) :: rat) - of_int k\<bar> < 1"
    using assms by (simp add: abs_if split: if_splits)
  then have "\<bar>(of_int (round_half_even q - k) :: rat)\<bar> < 1" by simp
  then have "\<bar>round_half_even q - k\<bar> < 1"
    by (metis of_int_abs of_int_less_1_iff)
  then show ?thesis by simp
qed

lemma round_half_even_tie:
  assumes "q = of_int k + 1 / 2"
  shows "round_half_even q = (if even k then k else k + 1)"
proof -
  have "\<lfloor>q\<rfloor> = k" unfolding assms by linarith
  then show ?thesis by (simp add: round_half_even_def Let_def assms)
qed

lemma pow2_inverse: "pow2 (a - b) * pow2 (b - a) = 1"
proof -
  have "pow2 (a - b) * pow2 (b - a) = pow2 0" by (simp add: pow2_add [symmetric])
  then show ?thesis by (simp add: pow2_def)
qed

lemma to_double_eval:
  assumes lo: "pow2 e \<le> \<bar>q\<bar>" and hi: "\<bar>q\<bar> < pow2 (e + 1)"
    and e: "- 1022 \<le> e" "e < 1023"
    and k: "of_int k - 1 / 2 < q * pow2 (52 - e)" "q * pow2 (52 - e) < of_int k + 1 / 2"
  shows "to_double q = Finite (of_int k * pow2 (e - 52))"
proof -
  have q0: "q \<noteq> 0"
  proof
    assume "q = 0"
    with lo have "pow2 e \<le> 0" by simp
    with pow2_pos [of e] show False by linarith
  qed
  have il: "ilog2 \<bar>q\<bar> = e" by (rule ilog2_unique [OF lo hi])
  have inv: "pow2 (e - 52) * pow2 (52 - e) = 1" by (rule pow2_inverse)
  have u: "0 < pow2 (e - 52)" by simp
  have "pow2 (52 - e) * pow2 (e - 52) = 1" using inv by (simp add: mult.commute)
  then have "pow2 (52 - e) = 1 / pow2 (e - 52)"
    by (subst nonzero_eq_divide_eq) simp_all
  then have "q / pow2 (e - 52) = q * pow2 (52 - e)" by simp
  then have r: "round_half_even (q / pow2 (e - 52)) = k"
    using k by (simp add: round_half_even_eval)
  have "\<bar>q * pow2 (52 - e)\<bar> = \<bar>q\<bar> * pow2 (52 - e)"
    by (simp add: abs_mult abs_of_pos)
  also have "\<dots> < pow2 (e + 1) * pow2 (52 - e)"
    using hi by (intro mult_strict_right_mono) simp_all
  also have "\<dots> = pow2 53" by (simp add: pow2_add [symmetric])
  finally have "\<bar>q * pow2 (52 - e)\<bar> < pow2 53" .
  then have "\<bar>(of_int k :: rat)\<bar> < pow2 53 + 1 / 2"
    using k by (simp add: abs_if split: if_splits)
  then have "\<bar>of_int k\<bar> * pow2 (e - 52) < (pow2 53 + 1 / 2) * pow2 (e - 52)"
    by (intro mult_strict_right_mono) simp_all
  moreover have "\<bar>of_int k * pow2 (e - 52)\<bar> = \<bar>of_int k\<bar> * pow2 (e - 52)"
    by (simp add: abs_mult abs_of_pos)
  ultimately have "\<bar>of_int k * pow2 (e - 52)\<bar> < (pow2 53 + 1 / 2) * pow2 (e - 52)"
    by simp
  also have "\<dots> = pow2 (e + 1) + pow2 (e - 53)"
  proof -
    have "pow2 53 * pow2 (e - 52) = pow2 (e + 1)"
      by (simp add: pow2_add [symmetric] add.commute)
    moreover have "pow2 (e - 52) = 2 * pow2 (e - 53)"
      using pow2_add [of 1 "e - 53"] by (simp add: pow2_def)
    ultimately show ?thesis by (simp add: algebra_simps)
  qed
  also have "\<dots> \<le> pow2 1023 + pow2 1023"
    using e by (intro add_mono pow2_mono) simp_all
  also have "\<dots> = pow2 1024"
    using pow2_add [of 1 1023] by (simp add: pow2_def)
  finally have b: "\<bar>of_int k * pow2 (e - 52)\<bar> < pow2 1024" .
  then have "\<not> pow2 1024 \<le> of_int k * pow2 (e - 52)"
    and "\<not> of_int k * pow2 (e - 52) \<le> - pow2 1024"
    by (simp_all add: abs_if split: if_splits)
  then show ?thesis
    using q0 e by (simp add: to_double_def il r Let_def max_def)
qed

lemma to_double_exact:
  assumes "pow2 e \<le> \<bar>q\<bar>" and "\<bar>q\<bar> < pow2 (e + 1)" and "- 1022 \<le> e" and "e < 1023"
    and k: "q * pow2 (52 - e) = of_int k"
  shows "to_double q = Finite q"
proof -
  have "to_double q = Finite (of_int k * pow2 (e - 52))"
    by (rule to_double_eval [OF assms(1-4)]) (simp_all add: k)
  also have "of_int k * pow2 (e - 52) = q * (pow2 (e - 52) * pow2 (52 - e))"
    by (simp add: k [symmetric])
  also have "\<dots> = q" by (simp add: pow2_inverse)
  finally show ?thesis .
qed

lemma to_double_not_NaN: "to_double q \<noteq> NaN"
  by (simp add: to_double_def Let_def)

lemma py_float_not_NaN: "py_float s = Some x \<Longrightarrow> x \<noteq> NaN"
  by (auto simp: py_float_def Let_def to_double_not_NaN split: prod.splits if_splits)

lemma int_round_not_TypeError: "int_round x \<noteq> Inl TypeError"
  by (cases x) (simp_all add: int_round_def)

lemma int_round_ValueError: "int_round x = Inl ValueError \<Longrightarrow> x = NaN"
  by (cases x) (simp_all add: int_round_def)

lemma fmul100_NaN: "fmul100 x = NaN \<Longrightarrow> x = NaN"
  by (cases x) (simp_all add: fmul100_def to_double_not_NaN)

text \<open>The doubles of the worked examples.\<close>

lemma double_9_8: "to_double (9 / 8) = Finite (9 / 8)"
  by (rule to_double_exact [where e = 0 and k = "9 * 2 ^ 49"]) (simp_all add: pow2_def)

lemma double_225_2: "to_double (225 / 2) = Finite (225 / 2)"
  by (rule to_double_exact [where e = 6 and k = "225 * 2 ^ 45"]) (simp_all add: pow2_def)

lemma double_25_2: "to_double (25 / 2) = Finite (25 / 2)"
  by (rule to_double_exact [where e = 3 and k = "25 * 2 ^ 48"]) (simp_all add: pow2_def)

lemma double_1250: "to_double 1250 = Finite 1250"
  by (rule to_double_exact [where e = 10 and k = "1250 * 2 ^ 42"]) (simp_all add: pow2_def)

lemma double_12999: "to_double (12999 / 1000) = Finite (7317786444523635 / 562949953421312)"
proof -
  have "to_double (12999 / 1000) = Finite (of_int 7317786444523635 * pow2 (3 - 52))"
    by (rule to_double_eval) (simp_all add: pow2_def)
  then show ?thesis by (simp add: pow2_def)
qed

lemma double_12999_times_100:
  "to_double (7317786444523635 / 562949953421312 * 100) = Finite (2858510329892045 / 2199023255552)"
proof -
  have "to_double (7317786444523635 / 562949953421312 * 100)
        = Finite (of_int 5717020659784090 * pow2 (10 - 52))"
    by (rule to_double_eval) (simp_all add: pow2_def)
  then show ?thesis by (simp add: pow2_def)
qed

lemma keep_dollars: "keep_money_chars ''$12.50'' = ''12.50''"
  by (simp add: keep_money_chars_def is_digit_def code_def)

lemma py_float_dollars: "py_float ''12.50'' = Some (Finite (25 / 2))"
proof -
  have "py_float ''12.50'' = Some (to_double (25 / 2))"
    by (simp add: py_float_def split_sign_def is_digit_def code_def digits_value_def)
  then show ?thesis by (simp add: double_25_2)
qed

lemma to_cents_9_8: "to_cents (PFloat (Finite (9 / 8))) = Inr 112"
proof -
  have "fmul100 (Finite (9 / 8)) = Finite (225 / 2)"
    using double_225_2 by (simp add: fmul100_def)
  moreover have "round_half_even (225 / 2) = 112"
    using round_half_even_tie [of "225 / 2" 112] by simp
  ultimately show ?thesis by (simp add: to_cents_def int_round_def)
qed

lemma to_cents_12999: "to_cents (PFloat (to_double (12999 / 1000))) = Inr 1300"
proof -
  have "fmul100 (to_double (12999 / 1000)) = Finite (2858510329892045 / 2199023255552)"
    using double_12999_times_100 by (simp add: fmul100_def double_12999)
  moreover have "round_half_even (2858510329892045 / 2199023255552) = 1300"
    by (rule round_half_even_eval) simp_all
  ultimately show ?thesis by (simp add: to_cents_def int_round_def double_12999)
qed

lemma to_cents_dollars: "to_cents (PStr ''$12.50'') = Inr 1250"
proof -
  have "fmul100 (Finite (25 / 2)) = Finite 1250"
    using double_1250 by (simp add: fmul100_def)
  moreover have "round_half_even 1250 = 1250"
    by (rule round_half_even_eval) simp_all
  ultimately show ?thesis
    by (simp add: to_cents_def keep_dollars py_float_dollars int_round_def)
qed

section \<open>Facts about the quantity pattern\<close>
















section \<open>Facts about the Toast adapter\<close>

lemma same_orders_run_all:
  assumes "\<forall>s \<in> set ss. same_orders s"
  shows "same_orders (run_all ss)"
  unfolding same_orders_def
proof
  fix reg
  from assms show "orders (snd (run_all ss reg)) = orders reg
                 \<and> order_items (snd (run_all ss reg)) = order_items reg"
  proof (induction ss arbitrary: reg)
    case Nil
    then show ?case by simp
  next
    case (Cons s ss)
    then have s: "orders (snd (s reg)) = orders reg" "order_items (snd (s reg)) = order_items reg"
      by (simp_all add: same_orders_def)
    obtain r reg' where sr: "s reg = (r, reg')" by (cases "s reg")
    show ?case
    proof (cases r)
      case (Inl e)
      with sr s show ?thesis by simp
    next
      case (Inr u)
      with sr s Cons.IH [of reg'] Cons.prems show ?thesis by simp
    qed
  qed
qed

lemma appends_orders_run_all:
  assumes "\<forall>s \<in> set ss. appends_orders s"
  shows "appends_orders (run_all ss)"
  unfolding appends_orders_def
proof
  fix reg
  from assms show "prefix (orders reg) (orders (snd (run_all ss reg)))
                 \<and> prefix (order_items reg) (order_items (snd (run_all ss reg)))"
  proof (induction ss arbitrary: reg)
    case Nil
    then show ?case by simp
  next
    case (Cons s ss)
    then have s: "prefix (orders reg) (orders (snd (s reg)))"
      "prefix (order_items reg) (order_items (snd (s reg)))"
      by (simp_all add: appends_orders_def)
    obtain r reg' where sr: "s reg = (r, reg')" by (cases "s reg")
    show ?case
    proof (cases r)
      case (Inl e)
      with sr s show ?thesis by simp
    next
      case (Inr u)
      from Cons.IH [of reg'] Cons.prems
      have "prefix (orders reg') (orders (snd (run_all ss reg')))"
        "prefix (order_items reg') (order_items (snd (run_all ss reg')))"
        by simp_all
      with sr s Inr show ?thesis by (auto intro: prefix_order.trans)
    qed
  qed
qed

lemma same_orders_appends: "same_orders s \<Longrightarrow> appends_orders s"
  by (simp add: same_orders_def appends_orders_def)

lemma same_orders_set_location: "same_orders (set_location name f)"
  by (simp add: same_orders_def set_location_def)

lemma same_orders_set_metadata: "same_orders (set_metadata name field v)"
  by (simp add: same_orders_def set_metadata_def split: option.splits)

lemma same_orders_when_location:
  assumes "\<forall>s \<in> set body. same_orders s"
  shows "same_orders (when_location name cond body)"
  using same_orders_run_all [OF assms]
  by (simp add: same_orders_def when_location_def split: option.splits)

lemma same_orders_create: "same_orders (create_location_if_missing name tz a c s z co)"
  by (simp add: same_orders_def create_location_if_missing_def)

lemma same_orders_update_source_id: "same_orders (update_source_id name src sid)"
  by (cases src)
    (simp_all add: update_source_id_def same_orders_run_all same_orders_set_location
      same_orders_set_metadata)

lemma same_orders_get_or_create_location:
  "same_orders (get_or_create_location name src sid tz a c s z co)"
  unfolding get_or_create_location_def
  by (rule same_orders_run_all)
    (simp add: same_orders_create same_orders_update_source_id same_orders_when_location
      same_orders_set_location same_orders_set_metadata)

lemma same_orders_register: "same_orders (register_toast_location loc)"
  using same_orders_get_or_create_location
  by (simp add: same_orders_def register_toast_location_def Let_def split: option.splits)

lemma appends_orders_stmt_for:
  assumes "\<And>x. appends_orders (body x)"
  shows "appends_orders (stmt_for f body)"
proof (cases "iter_list f")
  case (Inl e)
  then show ?thesis by (simp add: appends_orders_def stmt_for_def)
next
  case (Inr xs)
  have "appends_orders (run_all (map body xs))"
    by (rule appends_orders_run_all) (simp add: assms)
  with Inr show ?thesis by (simp add: appends_orders_def stmt_for_def)
qed

lemma appends_orders_item: "appends_orders (append_order_item category_map oid selection)"
  by (simp add: appends_orders_def append_order_item_def split: sum.splits)

lemma appends_orders_check:
  "appends_orders (process_check to_datetime_ok category_map location_name order check)"
  unfolding appends_orders_def
proof
  fix reg
  show "prefix (orders reg)
          (orders (snd (process_check to_datetime_ok category_map location_name order check reg)))
      \<and> prefix (order_items reg)
          (order_items (snd (process_check to_datetime_ok category_map location_name order check reg)))"
  proof (cases "toast_order to_datetime_ok location_name order check")
    case (Inl e)
    then show ?thesis by (simp add: process_check_def)
  next
    case (Inr order_instance)
    let ?reg1 = "reg\<lparr>orders := orders reg @ [order_instance]\<rparr>"
    let ?s = "stmt_for (chk_selections check) (append_order_item category_map (order_id order_instance))"
    have "appends_orders ?s"
      by (rule appends_orders_stmt_for) (rule appends_orders_item)
    then have "prefix (orders ?reg1) (orders (snd (?s ?reg1)))"
      and "prefix (order_items ?reg1) (order_items (snd (?s ?reg1)))"
      unfolding appends_orders_def by blast+
    moreover have "prefix (orders reg) (orders ?reg1)" "order_items ?reg1 = order_items reg"
      by simp_all
    ultimately show ?thesis
      using Inr by (auto simp: process_check_def dest: append_prefixD)
  qed
qed

lemma appends_orders_checks:
  "appends_orders (stmt_for (ord_checks order)
     (process_check to_datetime_ok category_map location_name order))"
  by (rule appends_orders_stmt_for) (rule appends_orders_check)

lemma appends_orders_order:
  "appends_orders (process_order to_datetime_ok category_map location_map order)"
  unfolding appends_orders_def
proof
  fix reg
  let ?guid = "get (ord_restaurantGuid order)"
  let ?found = "case ?guid of None \<Rightarrow> None | Some g \<Rightarrow> location_map g"
  show "prefix (orders reg)
          (orders (snd (process_order to_datetime_ok category_map location_map order reg)))
      \<and> prefix (order_items reg)
          (order_items (snd (process_order to_datetime_ok category_map location_map order reg)))"
  proof (cases "truthy ?found")
    case False
    show ?thesis
    proof (cases "get_location_name_opt ?guid ''Toast''")
      case (Inl e)
      with False show ?thesis by (simp add: process_order_def)
    next
      case (Inr location_name)
      let ?ss = "[get_or_create_location location_name TOAST (str_or_empty ?guid)
                     (Some ''America/New_York'') None None None None (Some ''US''),
                  stmt_for (ord_checks order)
                    (process_check to_datetime_ok category_map location_name order)]"
      have "appends_orders (run_all ?ss)"
        by (rule appends_orders_run_all)
          (auto simp: appends_orders_checks same_orders_appends same_orders_get_or_create_location)
      then show ?thesis
        using False Inr by (simp add: process_order_def appends_orders_def)
    qed
  next
    case True
    show ?thesis
    proof (cases "locations reg (str_or_empty ?found)")
      case None
      with True show ?thesis by (simp add: process_order_def)
    next
      case (Some location)
      from appends_orders_checks [of order to_datetime_ok category_map "str_or_empty ?found"]
      show ?thesis
        using True Some by (simp add: process_order_def appends_orders_def)
    qed
  qed
qed

lemma appends_orders_body:
  "appends_orders (process_toast_body to_datetime_ok categories_order file)"
proof (cases "file")
  case (Inl e)
  then show ?thesis by (simp add: appends_orders_def process_toast_body_def)
next
  case data: (Inr data)
  show ?thesis
  proof (cases "extract_categories_from_toast_data data")
    case (Inl e)
    with data show ?thesis by (simp add: appends_orders_def process_toast_body_def)
  next
    case (Inr toast_categories)
    let ?m = "build_category_mapping_from_catalogs (categories_order toast_categories)"
    let ?lm = "toast_location_map (case get_or (toast_locations data) [] of None \<Rightarrow> [] | Some ls \<Rightarrow> ls)"
    let ?ss = "[stmt_for (toast_locations data) register_toast_location,
                stmt_for (toast_orders data) (process_order to_datetime_ok ?m ?lm)]"
    have l: "appends_orders (stmt_for (toast_locations data) register_toast_location)"
      by (rule appends_orders_stmt_for) (rule same_orders_appends [OF same_orders_register])
    have o: "appends_orders (stmt_for (toast_orders data) (process_order to_datetime_ok ?m ?lm))"
      by (rule appends_orders_stmt_for) (rule appends_orders_order)
    have "appends_orders (run_all ?ss)"
      by (rule appends_orders_run_all) (simp add: l o)
    then show ?thesis
      using data Inr by (simp add: process_toast_body_def appends_orders_def Let_def)
  qed
qed

section \<open>Location fallback\<close>

text \<open>
  C10. A location identifier that is not a key of \<open>LOCATION_MAPPING\<close> and whose lowercased form
  contains none of "downtown", "airport", "mall", "univ", "university" is given the canonical
  name "Downtown": an unrecognised identifier is attributed to Downtown, not rejected.
\<close>

theorem get_location_name_default:
  assumes "location_id \<notin> fst ` set LOCATION_MAPPING"
    and "\<not> sublist ''downtown'' (lower location_id)"
    and "\<not> sublist ''airport'' (lower location_id)"
    and "\<not> sublist ''mall'' (lower location_id)"
    and "\<not> sublist ''univ'' (lower location_id)"
    and "\<not> sublist ''university'' (lower location_id)"
  shows "get_location_name location_id source = ''Downtown''"
proof -
  have "map_of LOCATION_MAPPING location_id = None"
    using assms(1) by (simp add: map_of_eq_None_iff)
  then show ?thesis
    using assms(2-6) by (simp add: get_location_name_def py_in_sublist)
qed

theorem get_location_name_default_witness:
  "''store_xyz_999'' \<notin> fst ` set LOCATION_MAPPING
   \<and> \<not> sublist ''downtown'' (lower ''store_xyz_999'')
   \<and> \<not> sublist ''airport'' (lower ''store_xyz_999'')
   \<and> \<not> sublist ''mall'' (lower ''store_xyz_999'')
   \<and> \<not> sublist ''univ'' (lower ''store_xyz_999'')
   \<and> \<not> sublist ''university'' (lower ''store_xyz_999'')
   \<and> get_location_name ''store_xyz_999'' ''Toast'' = ''Downtown''"
proof -
  have a: "''store_xyz_999'' \<notin> fst ` set LOCATION_MAPPING"
    by (simp add: LOCATION_MAPPING_def)
  have l: "lower ''store_xyz_999'' = ''store_xyz_999''"
    by (simp add: lower_def lower_char_def code_def)
  have b: "\<not> sublist ''downtown'' (lower ''store_xyz_999'')"
    and c: "\<not> sublist ''airport'' (lower ''store_xyz_999'')"
    and d: "\<not> sublist ''mall'' (lower ''store_xyz_999'')"
    and e: "\<not> sublist ''univ'' (lower ''store_xyz_999'')"
    and f: "\<not> sublist ''university'' (lower ''store_xyz_999'')"
    unfolding l by (simp_all add: sublist_Cons_right)
  show ?thesis
    using a b c d e f get_location_name_default [OF a b c d e f, of "''Toast''"] by simp
qed

section \<open>Category conflict pass\<close>

text \<open>
  C5. After the category-conflict pass every item keeps its place and its canonical name;
  an item whose canonical name contains "burger", case-insensitively, has category
  \<open>BURGERS\<close>, and an item whose canonical name does not contain it is left as it was.
\<close>

theorem resolve_category_conflicts_burger:
  assumes "i < length items"
  shows "length (resolve_category_conflicts items) = length items
    \<and> canonical_name (resolve_category_conflicts items ! i) = canonical_name (items ! i)
    \<and> (sublist ''burger'' (lower (canonical_name (items ! i)))
         \<longrightarrow> category (resolve_category_conflicts items ! i) = BURGERS)
    \<and> (\<not> sublist ''burger'' (lower (canonical_name (items ! i)))
         \<longrightarrow> resolve_category_conflicts items ! i = items ! i)"
  using assms
  by (auto simp: resolve_category_conflicts_def resolve_category_conflicts_item_def
      py_in_sublist category_value_burgers Let_def)

theorem resolve_category_conflicts_burger_witness:
  "(0::nat) < length [example_item ''double cheeseburger'' ENTREES, example_item ''fries'' SIDES]
   \<and> (1::nat) < length [example_item ''double cheeseburger'' ENTREES, example_item ''fries'' SIDES]
   \<and> sublist ''burger'' (lower ''double cheeseburger'')
   \<and> \<not> sublist ''burger'' (lower ''fries'')
   \<and> category (resolve_category_conflicts
         [example_item ''double cheeseburger'' ENTREES, example_item ''fries'' SIDES] ! 0) = BURGERS
   \<and> resolve_category_conflicts
         [example_item ''double cheeseburger'' ENTREES, example_item ''fries'' SIDES] ! 1
       = example_item ''fries'' SIDES"
proof -
  let ?its = "[example_item ''double cheeseburger'' ENTREES, example_item ''fries'' SIDES]"
  have l0: "lower ''double cheeseburger'' = ''double cheeseburger''"
    and l1: "lower ''fries'' = ''fries''"
    by (simp_all add: lower_def lower_char_def code_def)
  have s0: "sublist ''burger'' (lower ''double cheeseburger'')"
    unfolding l0 by (simp add: sublist_Cons_right)
  have s1: "\<not> sublist ''burger'' (lower ''fries'')"
    unfolding l1 by (simp add: sublist_Cons_right)
  have n0: "canonical_name (?its ! 0) = ''double cheeseburger''"
    and n1: "canonical_name (?its ! 1) = ''fries''"
    by (simp_all add: example_item_def)
  have h0: "(0::nat) < length ?its" and h1: "(1::nat) < length ?its" by simp_all
  from resolve_category_conflicts_burger [OF h0] s0 n0
  have r0: "category (resolve_category_conflicts ?its ! 0) = BURGERS" by simp
  from resolve_category_conflicts_burger [OF h1] s1 n1
  have r1: "resolve_category_conflicts ?its ! 1 = example_item ''fries'' SIDES" by simp
  show ?thesis using h0 h1 s0 s1 r0 r1 by blast
qed

section \<open>Text cleaning is not idempotent\<close>

text \<open>
  C2. The claim is that \<open>clean_text (clean_text x) = clean_text x\<close> for every input. The
  correction of "coffe" to "coffee" matches inside its own result, so cleaning "coffe" gives
  "coffee" and cleaning that again gives "coffeee": the correctly spelled word is corrupted
  by the table that is meant to fix typos. A second case: a name made of non-ASCII
  characters only (here U+00E9) is cleaned to the empty text, and the empty text to "unknown".
\<close>

theorem clean_text_coffe_not_idempotent:
  "clean_text ''coffe'' = ''coffee''
   \<and> clean_text (clean_text ''coffe'') = ''coffeee''
   \<and> clean_text (clean_text ''coffe'') \<noteq> clean_text ''coffe''
   \<and> clean_text [CHR 0xE9] = []
   \<and> clean_text (clean_text [CHR 0xE9]) = ''unknown''"
proof -
  have a: "clean_text ''coffe'' = ''coffee''" by code_simp
  have b: "clean_text ''coffee'' = ''coffeee''" by code_simp
  have c: "clean_text [CHR 0xE9] = []" by code_simp
  have d: "clean_text [] = ''unknown''" by code_simp
  show ?thesis by (simp add: a b c d)
qed

section \<open>The category mapping does not depend on the iteration order\<close>



section \<open>Merging a location that is already registered\<close>

text \<open>
  C7, as the code has it. When the canonical name is already registered, with its metadata,
  \<open>get_or_create_location\<close> returns normally and creates no location: only the entry
  under that name changes. Canonical name and country stay. Each address field is replaced
  by the writer's value exactly when the writer's value is set and the field was unset
  (\<open>None\<close> or empty), and stays as it was otherwise. The time zone is replaced by the
  writer's exactly when the writer's is set, differs from America/New\_York, and the time zone
  was America/New\_York (the default, whether defaulted or reported); it stays otherwise.
\<close>

theorem get_or_create_location_existing:
  assumes "locations reg name = Some loc" and "location_metadata reg name \<noteq> None"
  shows "\<exists>reg' loc'.
      get_or_create_location name src source_id timezone_str a c s z co reg = (Inr (), reg')
    \<and> locations reg' = (locations reg)(name \<mapsto> loc')
    \<and> loc_canonical_name loc' = loc_canonical_name loc
    \<and> country loc' = country loc
    \<and> address_line_1 loc'
        = (if truthy a \<and> \<not> truthy (address_line_1 loc) then a else address_line_1 loc)
    \<and> city loc' = (if truthy c \<and> \<not> truthy (city loc) then c else city loc)
    \<and> state loc' = (if truthy s \<and> \<not> truthy (state loc) then s else state loc)
    \<and> zip_code loc' = (if truthy z \<and> \<not> truthy (zip_code loc) then z else zip_code loc)
    \<and> timezone loc'
        = (if truthy timezone_str \<and> timezone loc = Some ''America/New_York''
              \<and> timezone_str \<noteq> Some ''America/New_York''
           then timezone_str else timezone loc)"
proof -
  from assms(2) obtain meta where meta: "location_metadata reg name = Some meta" by blast
  have r0: "create_location_if_missing name timezone_str a c s z co reg = (Inr (), reg)"
    using assms by (simp add: create_location_if_missing_def)
  from update_source_id_existing [OF assms(1) meta, of src source_id]
  obtain r1 l1 m1 where
    u1: "update_source_id name src source_id reg = (Inr (), r1)"
    and s1: "locations r1 = (locations reg)(name \<mapsto> l1)" "location_metadata r1 name = Some m1"
    and k1: "loc_canonical_name l1 = loc_canonical_name loc" "country l1 = country loc"
     "address_line_1 l1 = address_line_1 loc" "city l1 = city loc" "state l1 = state loc"
     "zip_code l1 = zip_code loc" "timezone l1 = timezone loc"
    by blast
  have p1: "locations r1 name = Some l1" using s1 by simp
  let ?c2 = "\<lambda>l. truthy a \<and> \<not> truthy (address_line_1 l)"
  let ?f2 = "\<lambda>l. l\<lparr>address_line_1 := a\<rparr>"
  define l2 where "l2 = (if ?c2 l1 then ?f2 l1 else l1)"
  from when_location_fill [OF p1 s1(2), of ?c2 ?f2 "''address_line_1''" a]
  obtain r2 m2 where
    u2: "when_location name ?c2 [set_location name ?f2, set_metadata name ''address_line_1'' a] r1 = (Inr (), r2)"
    and s2: "locations r2 = (locations r1)(name \<mapsto> l2)" "location_metadata r2 name = Some m2"
    unfolding l2_def by blast
  have p2: "locations r2 name = Some l2" using s2 by simp
  let ?c3 = "\<lambda>l. truthy c \<and> \<not> truthy (city l)"
  let ?f3 = "\<lambda>l. l\<lparr>city := c\<rparr>"
  define l3 where "l3 = (if ?c3 l2 then ?f3 l2 else l2)"
  from when_location_fill [OF p2 s2(2), of ?c3 ?f3 "''city''" c]
  obtain r3 m3 where
    u3: "when_location name ?c3 [set_location name ?f3, set_metadata name ''city'' c] r2 = (Inr (), r3)"
    and s3: "locations r3 = (locations r2)(name \<mapsto> l3)" "location_metadata r3 name = Some m3"
    unfolding l3_def by blast
  have p3: "locations r3 name = Some l3" using s3 by simp
  let ?c4 = "\<lambda>l. truthy s \<and> \<not> truthy (state l)"
  let ?f4 = "\<lambda>l. l\<lparr>state := s\<rparr>"
  define l4 where "l4 = (if ?c4 l3 then ?f4 l3 else l3)"
  from when_location_fill [OF p3 s3(2), of ?c4 ?f4 "''state''" s]
  obtain r4 m4 where
    u4: "when_location name ?c4 [set_location name ?f4, set_metadata name ''state'' s] r3 = (Inr (), r4)"
    and s4: "locations r4 = (locations r3)(name \<mapsto> l4)" "location_metadata r4 name = Some m4"
    unfolding l4_def by blast
  have p4: "locations r4 name = Some l4" using s4 by simp
  let ?c5 = "\<lambda>l. truthy z \<and> \<not> truthy (zip_code l)"
  let ?f5 = "\<lambda>l. l\<lparr>zip_code := z\<rparr>"
  define l5 where "l5 = (if ?c5 l4 then ?f5 l4 else l4)"
  from when_location_fill [OF p4 s4(2), of ?c5 ?f5 "''zip_code''" z]
  obtain r5 m5 where
    u5: "when_location name ?c5 [set_location name ?f5, set_metadata name ''zip_code'' z] r4 = (Inr (), r5)"
    and s5: "locations r5 = (locations r4)(name \<mapsto> l5)" "location_metadata r5 name = Some m5"
    unfolding l5_def by blast
  have p5: "locations r5 name = Some l5" using s5 by simp
  let ?c6 = "\<lambda>l. truthy timezone_str \<and> timezone l = Some ''America/New_York''
               \<and> timezone_str \<noteq> Some ''America/New_York''"
  let ?f6 = "\<lambda>l. l\<lparr>timezone := timezone_str\<rparr>"
  define l6 where "l6 = (if ?c6 l5 then ?f6 l5 else l5)"
  from when_location_fill [OF p5 s5(2), of ?c6 ?f6 "''timezone''" timezone_str]
  obtain r6 m6 where
    u6: "when_location name ?c6 [set_location name ?f6, set_metadata name ''timezone'' timezone_str] r5 = (Inr (), r6)"
    and s6: "locations r6 = (locations r5)(name \<mapsto> l6)" "location_metadata r6 name = Some m6"
    unfolding l6_def by blast
  have run: "get_or_create_location name src source_id timezone_str a c s z co reg = (Inr (), r6)"
    by (simp add: get_or_create_location_def r0 u1 u2 u3 u4 u5 u6)
  have locs: "locations r6 = (locations reg)(name \<mapsto> l6)"
    by (simp add: s1 s2 s3 s4 s5 s6)
  have f1: "loc_canonical_name l6 = loc_canonical_name loc" "country l6 = country loc"
    by (simp_all add: l6_def l5_def l4_def l3_def l2_def k1)
  have f2: "address_line_1 l6
        = (if truthy a \<and> \<not> truthy (address_line_1 loc) then a else address_line_1 loc)"
    by (simp add: l6_def l5_def l4_def l3_def l2_def k1)
  have f3: "city l6 = (if truthy c \<and> \<not> truthy (city loc) then c else city loc)"
    by (simp add: l6_def l5_def l4_def l3_def l2_def k1)
  have f4: "state l6 = (if truthy s \<and> \<not> truthy (state loc) then s else state loc)"
    by (simp add: l6_def l5_def l4_def l3_def l2_def k1)
  have f5: "zip_code l6 = (if truthy z \<and> \<not> truthy (zip_code loc) then z else zip_code loc)"
    by (simp add: l6_def l5_def l4_def l3_def l2_def k1)
  have f6: "timezone l6
        = (if truthy timezone_str \<and> timezone loc = Some ''America/New_York''
              \<and> timezone_str \<noteq> Some ''America/New_York''
           then timezone_str else timezone loc)"
    by (simp add: l6_def l5_def l4_def l3_def l2_def k1)
  show ?thesis
    by (intro exI [of _ r6] exI [of _ l6] conjI run locs f1 f2 f3 f4 f5 f6)
qed

theorem get_or_create_location_existing_witness:
  "locations new_york_registry ''Downtown'' =
     Some \<lparr>loc_canonical_name = ''Downtown'', toast_id = Some ''loc_downtown_001'',
       doordash_id = None, square_id = None, address_line_1 = Some ''123 Main St'',
       city = Some ''New York'', state = Some ''NY'', zip_code = Some ''10001'',
       country = Some ''US'', timezone = Some ''America/New_York''\<rparr>
   \<and> location_metadata new_york_registry ''Downtown'' \<noteq> None
   \<and> (\<exists>reg' loc'.
        get_or_create_location ''Downtown'' DOORDASH ''str_downtown_001'' (Some ''America/Chicago'')
          (Some ''9 Other Rd'') None (Some ''IL'') (Some ''60601'') (Some ''US'') new_york_registry
          = (Inr (), reg')
      \<and> locations reg' = (locations new_york_registry)(''Downtown'' \<mapsto> loc')
      \<and> address_line_1 loc' = Some ''123 Main St''
      \<and> city loc' = Some ''New York''
      \<and> state loc' = Some ''NY''
      \<and> zip_code loc' = Some ''10001''
      \<and> timezone loc' = Some ''America/Chicago'')
   \<and> locations chicago_registry ''Downtown'' =
     Some \<lparr>loc_canonical_name = ''Downtown'', toast_id = Some ''loc_downtown_001'',
       doordash_id = None, square_id = None, address_line_1 = Some ''123 Main St'',
       city = Some ''Chicago'', state = Some ''IL'', zip_code = None, country = Some ''US'',
       timezone = Some ''America/Chicago''\<rparr>
   \<and> location_metadata chicago_registry ''Downtown'' \<noteq> None
   \<and> (\<exists>reg' loc'.
        get_or_create_location ''Downtown'' DOORDASH ''str_downtown_001'' (Some ''America/Denver'')
          (Some ''9 Other Rd'') None (Some ''CO'') (Some ''60601'') (Some ''US'') chicago_registry
          = (Inr (), reg')
      \<and> locations reg' = (locations chicago_registry)(''Downtown'' \<mapsto> loc')
      \<and> address_line_1 loc' = Some ''123 Main St''
      \<and> city loc' = Some ''Chicago''
      \<and> state loc' = Some ''IL''
      \<and> zip_code loc' = Some ''60601''
      \<and> timezone loc' = Some ''America/Chicago'')"
proof -
  have a1: "locations new_york_registry ''Downtown'' =
     Some \<lparr>loc_canonical_name = ''Downtown'', toast_id = Some ''loc_downtown_001'',
       doordash_id = None, square_id = None, address_line_1 = Some ''123 Main St'',
       city = Some ''New York'', state = Some ''NY'', zip_code = Some ''10001'',
       country = Some ''US'', timezone = Some ''America/New_York''\<rparr>"
    by (simp add: new_york_registry_def get_or_create_location_def create_location_if_missing_def
        update_source_id_def when_location_def set_location_def set_metadata_def new_registry_def
        truthy_def)
  have b1: "location_metadata new_york_registry ''Downtown'' \<noteq> None"
    by (simp add: new_york_registry_def get_or_create_location_def create_location_if_missing_def
        update_source_id_def when_location_def set_location_def set_metadata_def new_registry_def
        truthy_def)
  have a2: "locations chicago_registry ''Downtown'' =
     Some \<lparr>loc_canonical_name = ''Downtown'', toast_id = Some ''loc_downtown_001'',
       doordash_id = None, square_id = None, address_line_1 = Some ''123 Main St'',
       city = Some ''Chicago'', state = Some ''IL'', zip_code = None, country = Some ''US'',
       timezone = Some ''America/Chicago''\<rparr>"
    by (simp add: chicago_registry_def get_or_create_location_def create_location_if_missing_def
        update_source_id_def when_location_def set_location_def set_metadata_def new_registry_def
        truthy_def)
  have b2: "location_metadata chicago_registry ''Downtown'' \<noteq> None"
    by (simp add: chicago_registry_def get_or_create_location_def create_location_if_missing_def
        update_source_id_def when_location_def set_location_def set_metadata_def new_registry_def
        truthy_def)
  from get_or_create_location_existing [OF a1 b1, of DOORDASH "''str_downtown_001''"
      "Some ''America/Chicago''" "Some ''9 Other Rd''" None "Some ''IL''" "Some ''60601''" "Some ''US''"]
  have c1: "\<exists>reg' loc'.
        get_or_create_location ''Downtown'' DOORDASH ''str_downtown_001'' (Some ''America/Chicago'')
          (Some ''9 Other Rd'') None (Some ''IL'') (Some ''60601'') (Some ''US'') new_york_registry
          = (Inr (), reg')
      \<and> locations reg' = (locations new_york_registry)(''Downtown'' \<mapsto> loc')
      \<and> address_line_1 loc' = Some ''123 Main St''
      \<and> city loc' = Some ''New York''
      \<and> state loc' = Some ''NY''
      \<and> zip_code loc' = Some ''10001''
      \<and> timezone loc' = Some ''America/Chicago''"
    by (auto simp: truthy_def)
  from get_or_create_location_existing [OF a2 b2, of DOORDASH "''str_downtown_001''"
      "Some ''America/Denver''" "Some ''9 Other Rd''" None "Some ''CO''" "Some ''60601''" "Some ''US''"]
  have c2: "\<exists>reg' loc'.
        get_or_create_location ''Downtown'' DOORDASH ''str_downtown_001'' (Some ''America/Denver'')
          (Some ''9 Other Rd'') None (Some ''CO'') (Some ''60601'') (Some ''US'') chicago_registry
          = (Inr (), reg')
      \<and> locations reg' = (locations chicago_registry)(''Downtown'' \<mapsto> loc')
      \<and> address_line_1 loc' = Some ''123 Main St''
      \<and> city loc' = Some ''Chicago''
      \<and> state loc' = Some ''IL''
      \<and> zip_code loc' = Some ''60601''
      \<and> timezone loc' = Some ''America/Chicago''"
    by (auto simp: truthy_def)
  show ?thesis by (intro conjI a1 b1 c1 a2 b2 c2)
qed

text \<open>
  C7, as the claim has it, fails for the time zone: a first writer that reports
  America/New\_York has set the time zone, and a later writer reporting America/Chicago
  overwrites it.
\<close>

theorem get_or_create_location_timezone_overwritten:
  "map_option timezone (locations new_york_registry ''Downtown'') = Some (Some ''America/New_York'')
   \<and> map_option timezone (locations (snd (get_or_create_location ''Downtown'' DOORDASH
        ''str_downtown_001'' (Some ''America/Chicago'') None None None None (Some ''US'')
        new_york_registry)) ''Downtown'') = Some (Some ''America/Chicago'')"
  by (simp add: new_york_registry_def get_or_create_location_def create_location_if_missing_def
      update_source_id_def when_location_def set_location_def set_metadata_def new_registry_def
      truthy_def)

section \<open>The order in which groups are walked\<close>

text \<open>
  C4, as the code has it. Whatever sort \<open>sort_values\<close> is, as long as it permutes its rows
  and returns them in descending order of count, the groups are walked in descending order
  of their number of occurrences among the order items, and every \<open>(canonical_name, category)\<close>
  of an item is walked exactly once. The order among equal counts is whatever the sort leaves:
  the walk is the sort applied to the grouped table, whose rows are in ascending order of
  their key, and it is the same for any two orderings of the same order items, so it does not
  follow the order of first appearance.
\<close>

theorem walk_order_descending_count:
  assumes perm: "\<And>xs. mset (sort_values xs) = mset xs"
    and desc: "\<And>xs. sorted_wrt (\<lambda>r r'. row_count r' \<le> row_count r) (sort_values xs)"
  shows "sorted_wrt (\<lambda>k k'. count_list (product_data items) k' \<le> count_list (product_data items) k)
           (walk_order sort_values items)
    \<and> distinct (walk_order sort_values items)
    \<and> set (walk_order sort_values items) = set (product_data items)
    \<and> walk_order sort_values items = map row_key (sort_values (groupby_size (product_data items)))
    \<and> sorted_wrt (<) (map row_key (groupby_size (product_data items)))
    \<and> (mset items' = mset items \<longrightarrow>
          walk_order sort_values items' = walk_order sort_values items)"
proof -
  let ?pd = "product_data items"
  let ?g = "groupby_size ?pd"
  have in_g: "r \<in> set ?g" if "r \<in> set (sort_values ?g)" for r
    using that perm [of ?g] by (metis set_mset_mset)
  have "sorted_wrt (\<lambda>r r'. count_list ?pd (row_key r') \<le> count_list ?pd (row_key r)) (sort_values ?g)"
    by (rule sorted_wrt_mono_rel [OF _ desc [of ?g]]) (simp add: groupby_size_count [OF in_g, symmetric])
  then have a: "sorted_wrt (\<lambda>k k'. count_list ?pd k' \<le> count_list ?pd k) (walk_order sort_values items)"
    by (simp add: walk_order_def product_counts_def sorted_wrt_map)
  have m: "mset (walk_order sort_values items) = mset (sort (remdups ?pd))"
    using perm [of ?g]
    by (simp add: walk_order_def product_counts_def row_key_groupby_size [symmetric]
        del: mset_map) (metis mset_map)
  have "distinct (sort (remdups ?pd))" by simp
  then have b: "distinct (walk_order sort_values items)"
    using m by (metis mset_eq_imp_distinct_iff)
  have c: "set (walk_order sort_values items) = set ?pd"
    using m by (metis set_mset_mset set_remdups set_sort)
  have d: "walk_order sort_values items = map row_key (sort_values ?g)"
    by (simp add: walk_order_def product_counts_def)
  have e: "sorted_wrt (<) (map row_key ?g)"
    by (rule groupby_size_keys_ascending)
  have f: "walk_order sort_values items' = walk_order sort_values items" if "mset items' = mset items"
    by (rule walk_order_ignores_item_order [OF that])
  show ?thesis using a b c d e f by blast
qed

theorem walk_order_descending_count_witness:
  "(\<forall>xs. mset (example_sort_values xs) = mset xs)
   \<and> (\<forall>xs. sorted_wrt (\<lambda>r r'. row_count r' \<le> row_count r) (example_sort_values xs))
   \<and> mset coleslaw_fries_items = mset fries_coleslaw_items
   \<and> sorted_wrt (\<lambda>k k'. count_list (product_data fries_coleslaw_items) k'
                          \<le> count_list (product_data fries_coleslaw_items) k)
           (walk_order example_sort_values fries_coleslaw_items)
   \<and> distinct (walk_order example_sort_values fries_coleslaw_items)
   \<and> set (walk_order example_sort_values fries_coleslaw_items)
       = set (product_data fries_coleslaw_items)
   \<and> walk_order example_sort_values coleslaw_fries_items
       = walk_order example_sort_values fries_coleslaw_items"
proof -
  have m: "mset coleslaw_fries_items = mset fries_coleslaw_items"
    by (simp add: coleslaw_fries_items_def fries_coleslaw_items_def add_mset_commute)
  note t = walk_order_descending_count [of example_sort_values fries_coleslaw_items
      coleslaw_fries_items, OF example_sort_values_mset example_sort_values_descending]
  show ?thesis
    by (intro conjI allI example_sort_values_mset example_sort_values_descending m
        t [THEN conjunct1] t [THEN conjunct2, THEN conjunct1]
        t [THEN conjunct2, THEN conjunct2, THEN conjunct1]
        t [THEN conjunct2, THEN conjunct2, THEN conjunct2, THEN conjunct2, THEN conjunct2,
           THEN mp, OF m])
qed

text \<open>
  C4, as the claim has it, fails, whatever the library sort does with equal counts. Take
  "fries" and "coleslaw", once each, in the same category, in the two possible orders. By
  first appearance the walk would be fries, coleslaw for the one and coleslaw, fries for the
  other; but both give the same grouped table, so no sort walks both as the claim says.
\<close>

theorem walk_order_not_first_appearance:
  "first_appearance_order fries_coleslaw_items = [(''fries'', ''sides''), (''coleslaw'', ''sides'')]
   \<and> first_appearance_order coleslaw_fries_items = [(''coleslaw'', ''sides''), (''fries'', ''sides'')]
   \<and> \<not> (\<exists>sort_values.
          walk_order sort_values fries_coleslaw_items = first_appearance_order fries_coleslaw_items
          \<and> walk_order sort_values coleslaw_fries_items = first_appearance_order coleslaw_fries_items)"
proof -
  have a: "first_appearance_order fries_coleslaw_items
           = [(''fries'', ''sides''), (''coleslaw'', ''sides'')]"
    by code_simp
  have b: "first_appearance_order coleslaw_fries_items
           = [(''coleslaw'', ''sides''), (''fries'', ''sides'')]"
    by code_simp
  have m: "mset fries_coleslaw_items = mset coleslaw_fries_items"
    by (simp add: coleslaw_fries_items_def fries_coleslaw_items_def add_mset_commute)
  have "\<not> (walk_order sort_values fries_coleslaw_items = first_appearance_order fries_coleslaw_items
          \<and> walk_order sort_values coleslaw_fries_items = first_appearance_order coleslaw_fries_items)"
    for sort_values
    using walk_order_ignores_item_order [OF m, of sort_values] by (auto simp: a b)
  then show ?thesis using a b by blast
qed

section \<open>The resolution threshold and the category of a merge\<close>

text \<open>
  C1. Entity resolution keeps every order item in its place and changes nothing but its
  canonical name. When the name of an item changes, the new name scores strictly above 88
  against the old one, and it is the name of a group of the same category (some order item
  carried that name with that category). For two groups \<open>a\<close>, then \<open>b\<close>: in the same category
  \<open>b\<close> is merged into \<open>a\<close> exactly when the score exceeds 88 (so not at 88, and at 89); in
  different categories \<open>b\<close> is never merged, whatever the score.
\<close>

theorem entity_resolution_threshold:
  assumes perm: "\<And>xs. mset (sort_values xs) = mset xs"
    and i: "i < length items"
  shows "length (perform_entity_resolution_on_models ratio sort_values items) = length items
    \<and> perform_entity_resolution_on_models ratio sort_values items ! i
        = (items ! i)\<lparr>canonical_name :=
            canonical_name (perform_entity_resolution_on_models ratio sort_values items ! i)\<rparr>
    \<and> (canonical_name (perform_entity_resolution_on_models ratio sort_values items ! i)
          \<noteq> canonical_name (items ! i)
        \<longrightarrow> 88 < ratio (canonical_name (perform_entity_resolution_on_models ratio sort_values items ! i))
                      (canonical_name (items ! i))
          \<and> (\<exists>j < length items.
                canonical_name (items ! j)
                  = canonical_name (perform_entity_resolution_on_models ratio sort_values items ! i)
                \<and> category (items ! j) = category (items ! i)))
    \<and> (a \<noteq> b \<longrightarrow> canonical_map_of ratio [(a, c, k1), (b, c, k2)] (b, c)
                    = Some (if 88 < ratio a b then a else b))
    \<and> (c1 \<noteq> c2 \<longrightarrow> canonical_map_of ratio [(a, c1, k1), (b, c2, k2)] (b, c2) = Some b)"
proof -
  let ?rows = "product_counts sort_values items"
  let ?cm = "canonical_map_of ratio ?rows"
  let ?res = "perform_entity_resolution_on_models ratio sort_values items"
  let ?it = "items ! i"
  have res: "?res = map (apply_canonical_map ?cm) items"
    by (cases items) (simp_all add: perform_entity_resolution_on_models_def product_data_def)
  have len: "length ?res = length items" by (simp add: res)
  have nth: "?res ! i = apply_canonical_map ?cm ?it" using i by (simp add: res)
  have shape: "?res ! i = ?it\<lparr>canonical_name := canonical_name (?res ! i)\<rparr>"
    unfolding nth by (simp add: apply_canonical_map_def Let_def split: option.splits)
  have merged: "88 < ratio (canonical_name (?res ! i)) (canonical_name ?it)
      \<and> (\<exists>j < length items. canonical_name (items ! j) = canonical_name (?res ! i)
            \<and> category (items ! j) = category ?it)"
    if changed: "canonical_name (?res ! i) \<noteq> canonical_name ?it"
  proof -
    let ?new = "canonical_name (?res ! i)"
    have look: "?cm (canonical_name ?it, category_value (category ?it)) = Some ?new"
      using changed unfolding nth
      by (auto simp: apply_canonical_map_def Let_def split: option.splits if_splits)
    from canonical_map_of_sound [OF look] changed
    have score: "88 < ratio ?new (canonical_name ?it)"
      and key: "(?new, category_value (category ?it)) \<in> row_key ` set ?rows"
      by auto
    from key have "(?new, category_value (category ?it)) \<in> set (product_data items)"
      by (simp add: product_counts_keys [OF perm])
    then obtain j where j: "j < length items"
      and "(canonical_name (items ! j), category_value (category (items ! j)))
           = (?new, category_value (category ?it))"
      by (auto simp: product_data_def in_set_conv_nth)
    then have "canonical_name (items ! j) = ?new" "category (items ! j) = category ?it"
      by (auto dest: category_value_inj)
    with j score show ?thesis by blast
  qed
  have two_same: "canonical_map_of ratio [(a, c, k1), (b, c, k2)] (b, c)
                  = Some (if 88 < ratio a b then a else b)" if "a \<noteq> b"
    using that by (simp add: canonical_map_of_def outer_step_def inner_step_def Let_def)
  have two_cross: "canonical_map_of ratio [(a, c1, k1), (b, c2, k2)] (b, c2) = Some b" if "c1 \<noteq> c2"
    using that by (simp add: canonical_map_of_def outer_step_def inner_step_def Let_def)
  show ?thesis using len shape merged two_same two_cross by blast
qed

theorem entity_resolution_threshold_witness:
  "(\<forall>xs. mset (example_sort_values xs) = mset xs)
   \<and> (2::nat) < length mozzarella_items
   \<and> canonical_name (mozzarella_items ! 2) = ''mozarella sticks''
   \<and> canonical_name (perform_entity_resolution_on_models example_ratio example_sort_values
        mozzarella_items ! 2) = ''mozzarella sticks''
   \<and> 88 < example_ratio ''mozzarella sticks'' ''mozarella sticks''
   \<and> (\<exists>j < length mozzarella_items.
         canonical_name (mozzarella_items ! j) = ''mozzarella sticks''
         \<and> category (mozzarella_items ! j) = category (mozzarella_items ! 2))
   \<and> ''mozzarella sticks'' \<noteq> ''mozarella sticks''
   \<and> canonical_map_of example_ratio
        [(''mozzarella sticks'', ''appetizers'', 2), (''mozarella sticks'', ''appetizers'', 1)]
        (''mozarella sticks'', ''appetizers'') = Some ''mozzarella sticks''
   \<and> ''appetizers'' \<noteq> ''sides''
   \<and> canonical_map_of example_ratio
        [(''mozzarella sticks'', ''appetizers'', 2), (''mozarella sticks'', ''sides'', 1)]
        (''mozarella sticks'', ''sides'') = Some ''mozarella sticks''"
proof -
  have p: "\<And>xs. mset (example_sort_values xs) = mset xs" by (rule example_sort_values_mset)
  have l: "(2::nat) < length mozzarella_items" by (simp add: mozzarella_items_def)
  have old: "canonical_name (mozzarella_items ! 2) = ''mozarella sticks''"
    by (simp add: mozzarella_items_def example_item_def)
  have new: "canonical_name (perform_entity_resolution_on_models example_ratio example_sort_values
             mozzarella_items ! 2) = ''mozzarella sticks''"
    by code_simp
  have sc: "example_ratio ''mozzarella sticks'' ''mozarella sticks'' = 97"
    by (simp add: example_ratio_def)
  note t = entity_resolution_threshold [OF p l, where ratio = example_ratio
      and a = "''mozzarella sticks''" and b = "''mozarella sticks''"
      and c = "''appetizers''" and ?c1.0 = "''appetizers''" and ?c2.0 = "''sides''"
      and ?k1.0 = 2 and ?k2.0 = 1]
  note t3 = t [THEN conjunct2, THEN conjunct2, THEN conjunct1]
  note t4 = t [THEN conjunct2, THEN conjunct2, THEN conjunct2, THEN conjunct1]
  note t5 = t [THEN conjunct2, THEN conjunct2, THEN conjunct2, THEN conjunct2]
  have d1: "''mozzarella sticks'' \<noteq> ''mozarella sticks''" by simp
  have d2: "''appetizers'' \<noteq> ''sides''" by simp
  have ne: "canonical_name (perform_entity_resolution_on_models example_ratio example_sort_values
             mozzarella_items ! 2) \<noteq> canonical_name (mozzarella_items ! 2)"
    unfolding new old by simp
  note m = t3 [THEN mp, OF ne, unfolded new old]
  note m1 = m [THEN conjunct1] and m2 = m [THEN conjunct2]
  note s = t4 [THEN mp, OF d1, unfolded sc]
  have s': "canonical_map_of example_ratio
        [(''mozzarella sticks'', ''appetizers'', 2), (''mozarella sticks'', ''appetizers'', 1)]
        (''mozarella sticks'', ''appetizers'') = Some ''mozzarella sticks''"
    using s by simp
  note x = t5 [THEN mp, OF d2]
  show ?thesis
    by (intro conjI allI p l old new m1 m2 s' x) simp_all
qed

section \<open>Conversion to cents\<close>

text \<open>
  C3, as the code has it. An integer is returned unchanged; \<open>None\<close> and NaN give 0. A finite
  float is multiplied by 100 (in double arithmetic) and rounded to the nearest integer, a tie
  going to the even integer. A string is reduced to its digits, dots and minus signs: if nothing
  is left the result is 0; without a dot it is read as an integer number of cents, 0 if it is
  not one; with a dot it is read as a float and treated as that float, 0 if it is not one.
  So \<open>to_cents("$12.50") = 1250\<close>, \<open>to_cents(1250) = 1250\<close> and \<open>to_cents(12.999) = 1300\<close>.
\<close>

theorem to_cents_cases:
  "to_cents (PInt i) = Inr i
   \<and> to_cents PNone = Inr 0
   \<and> to_cents (PFloat NaN) = Inr 0
   \<and> (fmul100 (Finite q) = Finite p \<longrightarrow>
        (\<exists>n. to_cents (PFloat (Finite q)) = Inr n
           \<and> \<bar>of_int n - p\<bar> \<le> 1 / 2
           \<and> (\<bar>of_int n - p\<bar> = 1 / 2 \<longrightarrow> even n)))
   \<and> (keep_money_chars s = [] \<longrightarrow> to_cents (PStr s) = Inr 0)
   \<and> (keep_money_chars s \<noteq> [] \<and> CHR ''.'' \<notin> set (keep_money_chars s) \<longrightarrow>
        to_cents (PStr s) = Inr (case py_int (keep_money_chars s) of Some n \<Rightarrow> n | None \<Rightarrow> 0))
   \<and> (CHR ''.'' \<in> set (keep_money_chars s) \<and> py_float (keep_money_chars s) = Some x \<longrightarrow>
        to_cents (PStr s) = to_cents (PFloat x))
   \<and> (CHR ''.'' \<in> set (keep_money_chars s) \<and> py_float (keep_money_chars s) = None \<longrightarrow>
        to_cents (PStr s) = Inr 0)
   \<and> to_cents (PStr ''$12.50'') = Inr 1250
   \<and> to_cents (PInt 1250) = Inr 1250
   \<and> to_cents (PFloat (to_double (12999 / 1000))) = Inr 1300"
proof -
  have a: "to_cents (PInt i) = Inr i" for i by (simp add: to_cents_def)
  have b: "to_cents PNone = Inr 0" "to_cents (PFloat NaN) = Inr 0"
    by (simp_all add: to_cents_def)
  have c: "\<exists>n. to_cents (PFloat (Finite q)) = Inr n \<and> \<bar>of_int n - p\<bar> \<le> 1 / 2
             \<and> (\<bar>of_int n - p\<bar> = 1 / 2 \<longrightarrow> even n)"
    if "fmul100 (Finite q) = Finite p"
  proof -
    have "to_cents (PFloat (Finite q)) = Inr (round_half_even p)"
      using that by (simp add: to_cents_def int_round_def)
    then show ?thesis using round_half_even_near [of p] by blast
  qed
  have d: "to_cents (PStr s) = Inr 0" if "keep_money_chars s = []"
    using that by (simp add: to_cents_def)
  have e: "to_cents (PStr s) = Inr (case py_int (keep_money_chars s) of Some n \<Rightarrow> n | None \<Rightarrow> 0)"
    if "keep_money_chars s \<noteq> []" "CHR ''.'' \<notin> set (keep_money_chars s)"
    using that by (simp add: to_cents_def split: option.splits)
  have f: "to_cents (PStr s) = to_cents (PFloat x)"
    if dot: "CHR ''.'' \<in> set (keep_money_chars s)" and fl: "py_float (keep_money_chars s) = Some x"
  proof -
    have ne: "keep_money_chars s \<noteq> []" using dot by auto
    have x: "x \<noteq> NaN" by (rule py_float_not_NaN [OF fl])
    have r: "int_round (fmul100 x) \<noteq> Inl ValueError" "int_round (fmul100 x) \<noteq> Inl TypeError"
      using x int_round_ValueError [of "fmul100 x"] fmul100_NaN [of x] int_round_not_TypeError
      by auto
    have "to_cents (PStr s) = int_round (fmul100 x)"
      using ne dot fl r by (simp add: to_cents_def split: sum.splits error.splits)
    moreover have "to_cents (PFloat x) = int_round (fmul100 x)"
      using x by (cases x) (simp_all add: to_cents_def)
    ultimately show ?thesis by simp
  qed
  have g: "to_cents (PStr s) = Inr 0"
    if "CHR ''.'' \<in> set (keep_money_chars s)" "py_float (keep_money_chars s) = None"
  proof -
    have "keep_money_chars s \<noteq> []" using that(1) by auto
    then show ?thesis using that by (simp add: to_cents_def)
  qed
  show ?thesis
    using a b c d e f g to_cents_dollars to_cents_12999 by blast
qed

theorem to_cents_cases_witness:
  "fmul100 (Finite (9 / 8)) = Finite (225 / 2)
   \<and> (\<exists>n. to_cents (PFloat (Finite (9 / 8))) = Inr n
         \<and> \<bar>of_int n - 225 / 2\<bar> \<le> (1 / 2 :: rat)
         \<and> (\<bar>of_int n - 225 / 2\<bar> = (1 / 2 :: rat) \<longrightarrow> even n))
   \<and> keep_money_chars ''n/a'' = [] \<and> to_cents (PStr ''n/a'') = Inr 0
   \<and> keep_money_chars ''1,250'' \<noteq> [] \<and> CHR ''.'' \<notin> set (keep_money_chars ''1,250'')
   \<and> to_cents (PStr ''1,250'') = Inr 1250
   \<and> CHR ''.'' \<in> set (keep_money_chars ''$12.50'')
   \<and> py_float (keep_money_chars ''$12.50'') = Some (Finite (25 / 2))
   \<and> to_cents (PStr ''$12.50'') = to_cents (PFloat (Finite (25 / 2)))
   \<and> CHR ''.'' \<in> set (keep_money_chars ''1.2.3'')
   \<and> py_float (keep_money_chars ''1.2.3'') = None
   \<and> to_cents (PStr ''1.2.3'') = Inr 0"
proof -
  have h1: "fmul100 (Finite (9 / 8)) = Finite (225 / 2)"
    using double_225_2 by (simp add: fmul100_def)
  note t1 = to_cents_cases [where q = "9 / 8" and p = "225 / 2",
      THEN conjunct2, THEN conjunct2, THEN conjunct2, THEN conjunct1, THEN mp, OF h1]
  have h2: "keep_money_chars ''n/a'' = []"
    by (simp add: keep_money_chars_def is_digit_def code_def)
  note t2 = to_cents_cases [where s = "''n/a''",
      THEN conjunct2, THEN conjunct2, THEN conjunct2, THEN conjunct2, THEN conjunct1, THEN mp, OF h2]
  have k3: "keep_money_chars ''1,250'' = ''1250''"
    by (simp add: keep_money_chars_def is_digit_def code_def)
  have h3: "keep_money_chars ''1,250'' \<noteq> [] \<and> CHR ''.'' \<notin> set (keep_money_chars ''1,250'')"
    by (simp add: k3)
  have i3: "py_int ''1250'' = Some 1250"
    by (simp add: py_int_def split_sign_def is_digit_def code_def digits_value_def)
  note t3 = to_cents_cases [where s = "''1,250''",
      THEN conjunct2, THEN conjunct2, THEN conjunct2, THEN conjunct2, THEN conjunct2,
      THEN conjunct1, THEN mp, OF h3, unfolded k3 i3]
  have h4: "CHR ''.'' \<in> set (keep_money_chars ''$12.50'')
            \<and> py_float (keep_money_chars ''$12.50'') = Some (Finite (25 / 2))"
    by (simp add: keep_dollars py_float_dollars)
  note t4 = to_cents_cases [where s = "''$12.50''" and x = "Finite (25 / 2)",
      THEN conjunct2, THEN conjunct2, THEN conjunct2, THEN conjunct2, THEN conjunct2,
      THEN conjunct2, THEN conjunct1, THEN mp, OF h4]
  have k5: "keep_money_chars ''1.2.3'' = ''1.2.3''"
    by (simp add: keep_money_chars_def is_digit_def code_def)
  have f5: "py_float ''1.2.3'' = None"
    by (simp add: py_float_def split_sign_def is_digit_def code_def)
  have h5: "CHR ''.'' \<in> set (keep_money_chars ''1.2.3'')
            \<and> py_float (keep_money_chars ''1.2.3'') = None"
    by (simp add: k5 f5)
  note t5 = to_cents_cases [where s = "''1.2.3''",
      THEN conjunct2, THEN conjunct2, THEN conjunct2, THEN conjunct2, THEN conjunct2,
      THEN conjunct2, THEN conjunct2, THEN conjunct1, THEN mp, OF h5]
  from t3 have t3': "to_cents (PStr ''1,250'') = Inr 1250" by simp
  show ?thesis
    by (intro conjI h1 t1 h2 t2 h3 [THEN conjunct1] h3 [THEN conjunct2] t3'
        h4 [THEN conjunct1] h4 [THEN conjunct2] t4 h5 [THEN conjunct1] h5 [THEN conjunct2] t5)
qed

text \<open>
  C3, as the claim has it, fails for floats: rounding is not half away from zero. The double
  1.125 times 100 is exactly 112.5; \<open>to_cents\<close> gives 112, where rounding half away from zero
  gives 113.
\<close>

theorem to_cents_rounds_half_to_even:
  "to_double (9 / 8) = Finite (9 / 8)
   \<and> fmul100 (Finite (9 / 8)) = Finite (225 / 2)
   \<and> to_cents (PFloat (Finite (9 / 8))) = Inr 112
   \<and> round_half_away (225 / 2) = 113"
proof -
  have "fmul100 (Finite (9 / 8)) = Finite (225 / 2)"
    using double_225_2 by (simp add: fmul100_def)
  moreover have "round_half_away (225 / 2) = 113"
  proof -
    have "\<lfloor>(113 :: rat)\<rfloor> = 113" by (rule floor_numeral)
    then show ?thesis by (simp add: round_half_away_def)
  qed
  ultimately show ?thesis by (simp add: double_9_8 to_cents_9_8)
qed

section \<open>Quantity baked into a name\<close>



section \<open>A source that fails\<close>

text \<open>
  C8, as the code has it. Whatever the body of \<open>process_toast\<close> does, and so also when it
  raises, \<open>process_toast\<close> returns normally with the registry as the body left it. Nothing
  is rolled back: the orders and order items that were in the registry are still there, in
  front, followed by those the source appended before it failed. When it is the reading of
  the file that fails, or the pass that collects the categories, the registry is unchanged.
  The pipeline goes on: the DoorDash body runs on the registry Toast left, the Square body
  on the registry DoorDash left, whether or not they raise, and entity resolution, the
  category-conflict pass and product materialisation run on the result.
\<close>

theorem process_toast_exception_caught:
  "process_toast to_datetime_ok categories_order toast_file reg
      = (Inr (), snd (process_toast_body to_datetime_ok categories_order toast_file reg))
    \<and> prefix (orders reg) (orders (snd (process_toast to_datetime_ok categories_order toast_file reg)))
    \<and> prefix (order_items reg)
        (order_items (snd (process_toast to_datetime_ok categories_order toast_file reg)))
    \<and> (toast_file = Inl e \<longrightarrow> snd (process_toast to_datetime_ok categories_order toast_file reg) = reg)
    \<and> (toast_file = Inr data \<and> extract_categories_from_toast_data data = Inl e
         \<longrightarrow> snd (process_toast to_datetime_ok categories_order toast_file reg) = reg)
    \<and> process_and_clean_data ratio sort_values to_datetime_ok categories_order
          process_doordash_body process_square_body toast_file
        = create_products_from_order_items (conflict_stage (resolution_stage ratio sort_values
            (snd (process_square_body (snd (process_doordash_body
              (snd (process_toast_body to_datetime_ok categories_order toast_file new_registry))))))))"
proof -
  have a: "process_toast to_datetime_ok categories_order toast_file reg
      = (Inr (), snd (process_toast_body to_datetime_ok categories_order toast_file reg))"
    by (simp add: process_toast_def catch_exception_def)
  then have b: "snd (process_toast to_datetime_ok categories_order toast_file reg)
        = snd (process_toast_body to_datetime_ok categories_order toast_file reg)"
    by simp
  from appends_orders_body [of to_datetime_ok categories_order toast_file]
  have c: "prefix (orders reg) (orders (snd (process_toast to_datetime_ok categories_order toast_file reg)))"
    and d: "prefix (order_items reg)
        (order_items (snd (process_toast to_datetime_ok categories_order toast_file reg)))"
    unfolding b appends_orders_def by blast+
  have f: "snd (process_toast to_datetime_ok categories_order toast_file reg) = reg" if "toast_file = Inl e"
    unfolding b using that by (simp add: process_toast_body_def)
  have g: "snd (process_toast to_datetime_ok categories_order toast_file reg) = reg"
    if "toast_file = Inr data \<and> extract_categories_from_toast_data data = Inl e"
    unfolding b using that by (simp add: process_toast_body_def)
  have h: "process_and_clean_data ratio sort_values to_datetime_ok categories_order
          process_doordash_body process_square_body toast_file
        = create_products_from_order_items (conflict_stage (resolution_stage ratio sort_values
            (snd (process_square_body (snd (process_doordash_body
              (snd (process_toast_body to_datetime_ok categories_order toast_file new_registry))))))))"
    by (simp add: process_and_clean_data_def process_toast_def catch_exception_def
        create_products_from_order_items_def)
  show ?thesis using a c d f g h by blast
qed

theorem process_toast_exception_caught_witness:
  "process_toast_body accept_any_date sorted_list_of_set (Inl OSError) new_york_registry
     = (Inl OSError, new_york_registry)
   \<and> process_toast accept_any_date sorted_list_of_set (Inl OSError) new_york_registry
     = (Inr (), new_york_registry)
   \<and> extract_categories_from_toast_data null_group_toast_data = Inl AttributeError
   \<and> process_toast accept_any_date sorted_list_of_set (Inr null_group_toast_data) new_york_registry
     = (Inr (), new_york_registry)
   \<and> fst (process_toast_body accept_any_date sorted_list_of_set (Inr failing_toast_data)
        new_registry) = Inl AttributeError
   \<and> prefix (orders new_registry)
       (orders (snd (process_toast accept_any_date sorted_list_of_set (Inr failing_toast_data)
          new_registry)))
   \<and> process_and_clean_data example_ratio example_sort_values accept_any_date sorted_list_of_set
        raising_body raising_body (Inl OSError)
     = create_products_from_order_items (conflict_stage (resolution_stage example_ratio
         example_sort_values new_registry))"
proof -
  note t1 = process_toast_exception_caught [where toast_file = "Inl OSError" and e = OSError
      and to_datetime_ok = accept_any_date and categories_order = sorted_list_of_set
      and reg = new_york_registry and ratio = example_ratio
      and sort_values = example_sort_values and process_doordash_body = raising_body
      and process_square_body = raising_body]
  note t2 = process_toast_exception_caught [where toast_file = "Inr null_group_toast_data"
      and data = null_group_toast_data and e = AttributeError
      and to_datetime_ok = accept_any_date and categories_order = sorted_list_of_set
      and reg = new_york_registry]
  note t3 = process_toast_exception_caught [where toast_file = "Inr failing_toast_data"
      and to_datetime_ok = accept_any_date and categories_order = sorted_list_of_set
      and reg = new_registry]
  have b1: "process_toast_body accept_any_date sorted_list_of_set (Inl OSError) new_york_registry
     = (Inl OSError, new_york_registry)"
    by (simp add: process_toast_body_def)
  have e1: "snd (process_toast accept_any_date sorted_list_of_set (Inl OSError) new_york_registry)
     = new_york_registry"
    by (rule t1 [THEN conjunct2, THEN conjunct2, THEN conjunct2, THEN conjunct1, THEN mp, OF refl])
  have p1: "process_toast accept_any_date sorted_list_of_set (Inl OSError) new_york_registry
     = (Inr (), new_york_registry)"
    using t1 [THEN conjunct1] b1 by simp
  have x2: "extract_categories_from_toast_data null_group_toast_data = Inl AttributeError"
    by code_simp
  have e2: "snd (process_toast accept_any_date sorted_list_of_set (Inr null_group_toast_data)
      new_york_registry) = new_york_registry"
    by (rule t2 [THEN conjunct2, THEN conjunct2, THEN conjunct2, THEN conjunct2, THEN conjunct1,
          THEN mp, OF conjI, OF refl x2])
  have p2: "process_toast accept_any_date sorted_list_of_set (Inr null_group_toast_data)
      new_york_registry = (Inr (), new_york_registry)"
    using t2 [THEN conjunct1] e2 by simp
  have h3: "fst (process_toast_body accept_any_date sorted_list_of_set (Inr failing_toast_data)
        new_registry) = Inl AttributeError"
    by code_simp
  have b0: "process_toast_body accept_any_date sorted_list_of_set (Inl OSError) new_registry
     = (Inl OSError, new_registry)"
    by (simp add: process_toast_body_def)
  have p4: "process_and_clean_data example_ratio example_sort_values accept_any_date
        sorted_list_of_set raising_body raising_body (Inl OSError)
     = create_products_from_order_items (conflict_stage (resolution_stage example_ratio
         example_sort_values new_registry))"
    using t1 [THEN conjunct2, THEN conjunct2, THEN conjunct2, THEN conjunct2, THEN conjunct2]
    by (simp add: b0 raising_body_def)
  show ?thesis
    by (intro conjI b1 p1 x2 p2 h3 t3 [THEN conjunct2, THEN conjunct1] p4)
qed

text \<open>
  C8, as the claim has it, fails: the failed source does not contribute zero orders. In an
  export whose second order has no \<open>restaurantGuid\<close> the adapter raises \<open>AttributeError\<close>
  in \<open>get_location_name\<close>, after the check of the first order has been appended: the
  registry, empty before, holds the order \<open>TOAST_c1\<close> and its item. In an export whose only
  selection has a \<open>null\<close> display name and a \<open>null\<close> item name the adapter raises
  \<open>TypeError\<close> in the pattern search, after the order of the check has been appended: the
  registry holds that order, \<open>TOAST_None\<close> as the guid of the check is \<open>null\<close>, and no item.
\<close>

theorem process_toast_keeps_partial_orders:
  "fst (process_toast_body accept_any_date sorted_list_of_set (Inr failing_toast_data) new_registry)
     = Inl AttributeError
   \<and> orders new_registry = []
   \<and> map order_id (orders (snd (process_toast accept_any_date sorted_list_of_set
        (Inr failing_toast_data) new_registry))) = [''TOAST_c1'']
   \<and> map canonical_name (order_items (snd (process_toast accept_any_date sorted_list_of_set
        (Inr failing_toast_data) new_registry))) = [''churros'']
   \<and> fst (process_toast_body accept_any_date sorted_list_of_set (Inr null_name_toast_data)
        new_registry) = Inl TypeError
   \<and> map order_id (orders (snd (process_toast accept_any_date sorted_list_of_set
        (Inr null_name_toast_data) new_registry))) = [''TOAST_None'']
   \<and> order_items (snd (process_toast accept_any_date sorted_list_of_set
        (Inr null_name_toast_data) new_registry)) = []"
proof -
  have a: "fst (process_toast_body accept_any_date sorted_list_of_set (Inr failing_toast_data)
              new_registry) = Inl AttributeError"
    by code_simp
  have b: "orders new_registry = []" by (simp add: new_registry_def)
  have c: "map order_id (orders (snd (process_toast accept_any_date sorted_list_of_set
        (Inr failing_toast_data) new_registry))) = [''TOAST_c1'']"
    by code_simp
  have d: "map canonical_name (order_items (snd (process_toast accept_any_date sorted_list_of_set
        (Inr failing_toast_data) new_registry))) = [''churros'']"
    by code_simp
  have e: "fst (process_toast_body accept_any_date sorted_list_of_set (Inr null_name_toast_data)
        new_registry) = Inl TypeError"
    by code_simp
  have f: "map order_id (orders (snd (process_toast accept_any_date sorted_list_of_set
        (Inr null_name_toast_data) new_registry))) = [''TOAST_None'']"
    by code_simp
  have g: "order_items (snd (process_toast accept_any_date sorted_list_of_set
        (Inr null_name_toast_data) new_registry)) = []"
    by code_simp
  show ?thesis by (intro conjI a b c d e f g)
qed
end
